theory Spec2Isabelle
  imports Main "HOL-Library.Char_ord" "HOL-Library.List_Lexorder"
begin

section \<open>The store of instaclaw: tables, statements and the exported functions of db.ts\<close>

text \<open>
  The data-access module keeps all state in one SQLite database opened through
  better-sqlite3. The model is a record of six tables, each a list of rows in rowid
  (insertion) order. Every exported function of the module is a HOL function that takes
  the database and returns the value the TypeScript function returns together with the
  database afterwards; a \<^verbatim>\<open>SqliteError\<close> thrown by a statement is the \<open>Inl\<close> branch
  of the result. Values the module draws from its environment are parameters:
  \<open>uuid\<close> is what \<^verbatim>\<open>crypto.randomUUID()\<close> returned, \<open>now\<close> is the text
  \<^verbatim>\<open>CURRENT_TIMESTAMP\<close> evaluated to.

  Text columns are compared bytewise (SQLite's BINARY collation), which on \<open>string\<close> is the
  lexicographic order of \<open>HOL-Library.List_Lexorder\<close> over \<open>HOL-Library.Char_ord\<close>.
\<close>

subsection \<open>Rows\<close>

record auth_cookie =
  ck_cookie_value :: string
  ck_atxp_account :: string
  ck_created_at :: string

record profile =
  pr_id :: string
  pr_atxp_account :: string
  pr_username :: string
  pr_display_name :: string
  pr_bio :: string
  pr_avatar_url :: "string option"
  pr_created_at :: string

record post =
  po_id :: string
  po_author_id :: string
  po_image_url :: string
  po_caption :: string
  po_created_at :: string

text \<open>\<^verbatim>\<open>interface PostWithDetails extends Post\<close>; \<open>is_liked\<close> is the optional field.\<close>

record post_with_details = post +
  author_username :: string
  author_display_name :: string
  author_avatar_url :: "string option"
  like_count :: nat
  comment_count :: nat
  is_liked :: "bool option"

record like_row =
  lk_id :: string
  lk_post_id :: string
  lk_user_id :: string
  lk_created_at :: string

record comment_row =
  cm_id :: string
  cm_post_id :: string
  cm_author_id :: string
  cm_content :: string
  cm_created_at :: string

text \<open>A comment as the two comment queries select it: \<^verbatim>\<open>c.*\<close> and three author columns.\<close>

record comment_with_author = comment_row +
  cm_author_username :: string
  cm_author_display_name :: string
  cm_author_avatar_url :: "string option"

record follow_row =
  fl_id :: string
  fl_follower_id :: string
  fl_following_id :: string
  fl_created_at :: string

record db =
  auth_cookies :: "auth_cookie list"
  profiles :: "profile list"
  posts :: "post list"
  likes :: "like_row list"
  comments :: "comment_row list"
  follows :: "follow_row list"

definition empty_db :: db where
  "empty_db = \<lparr>auth_cookies = [], profiles = [], posts = [], likes = [], comments = [],
     follows = []\<rparr>"

datatype sqlite_error =
    SQLITE_CONSTRAINT_PRIMARYKEY
  | SQLITE_CONSTRAINT_UNIQUE
  | SQLITE_CONSTRAINT_FOREIGNKEY
  | SQLITE_MISMATCH

subsection \<open>The statements\<close>

text \<open>
  Each statement checks the constraints the schema of \<^verbatim>\<open>getDb\<close> declares for its table:
  the \<^verbatim>\<open>UNIQUE\<close> columns, the primary key, and the \<^verbatim>\<open>FOREIGN KEY\<close> clauses. A failed
  statement changes nothing. SQLite walks the unique indexes of a table from the one
  declared last to the one declared first, and the primary key is declared first in every
  table here; so a row that repeats both a \<^verbatim>\<open>UNIQUE\<close> column and the primary key fails with
  \<^verbatim>\<open>SQLITE_CONSTRAINT_UNIQUE\<close>. Foreign keys are counted while the row is written and
  looked at when the statement ends, after the other two.

  The flag \<open>fk\<close> is the connection's \<^verbatim>\<open>foreign_keys\<close> pragma. \<^verbatim>\<open>getDb\<close> sets only
  \<^verbatim>\<open>journal_mode\<close>, so the flag has the default of the engine under it: the SQLite that
  better-sqlite3 bundles is compiled with \<^verbatim>\<open>SQLITE_DEFAULT_FOREIGN_KEYS=1\<close>, which is
  \<open>fk = True\<close>, the schema's foreign keys enforced. Results that do not depend on the flag are
  proved for both values.
\<close>

definition insert_auth_cookie :: "db \<Rightarrow> auth_cookie \<Rightarrow> sqlite_error + db" where
  "insert_auth_cookie s r =
     (if ck_cookie_value r \<in> ck_cookie_value ` set (auth_cookies s)
      then Inl SQLITE_CONSTRAINT_PRIMARYKEY
      else Inr (s\<lparr>auth_cookies := auth_cookies s @ [r]\<rparr>))"

definition insert_profile :: "db \<Rightarrow> profile \<Rightarrow> sqlite_error + db" where
  "insert_profile s r =
     (if pr_username r \<in> pr_username ` set (profiles s)
         \<or> pr_atxp_account r \<in> pr_atxp_account ` set (profiles s)
      then Inl SQLITE_CONSTRAINT_UNIQUE
      else if pr_id r \<in> pr_id ` set (profiles s) then Inl SQLITE_CONSTRAINT_PRIMARYKEY
      else Inr (s\<lparr>profiles := profiles s @ [r]\<rparr>))"

definition insert_post :: "bool \<Rightarrow> db \<Rightarrow> post \<Rightarrow> sqlite_error + db" where
  "insert_post fk s r =
     (if po_id r \<in> po_id ` set (posts s) then Inl SQLITE_CONSTRAINT_PRIMARYKEY
      else if fk \<and> po_author_id r \<notin> pr_id ` set (profiles s)
      then Inl SQLITE_CONSTRAINT_FOREIGNKEY
      else Inr (s\<lparr>posts := posts s @ [r]\<rparr>))"

definition insert_like :: "bool \<Rightarrow> db \<Rightarrow> like_row \<Rightarrow> sqlite_error + db" where
  "insert_like fk s r =
     (if (lk_post_id r, lk_user_id r) \<in> (\<lambda>l. (lk_post_id l, lk_user_id l)) ` set (likes s)
      then Inl SQLITE_CONSTRAINT_UNIQUE
      else if lk_id r \<in> lk_id ` set (likes s) then Inl SQLITE_CONSTRAINT_PRIMARYKEY
      else if fk \<and> (lk_post_id r \<notin> po_id ` set (posts s)
                    \<or> lk_user_id r \<notin> pr_id ` set (profiles s))
      then Inl SQLITE_CONSTRAINT_FOREIGNKEY
      else Inr (s\<lparr>likes := likes s @ [r]\<rparr>))"

definition insert_comment :: "bool \<Rightarrow> db \<Rightarrow> comment_row \<Rightarrow> sqlite_error + db" where
  "insert_comment fk s r =
     (if cm_id r \<in> cm_id ` set (comments s) then Inl SQLITE_CONSTRAINT_PRIMARYKEY
      else if fk \<and> (cm_post_id r \<notin> po_id ` set (posts s)
                    \<or> cm_author_id r \<notin> pr_id ` set (profiles s))
      then Inl SQLITE_CONSTRAINT_FOREIGNKEY
      else Inr (s\<lparr>comments := comments s @ [r]\<rparr>))"

definition insert_follow :: "bool \<Rightarrow> db \<Rightarrow> follow_row \<Rightarrow> sqlite_error + db" where
  "insert_follow fk s r =
     (if (fl_follower_id r, fl_following_id r)
           \<in> (\<lambda>f. (fl_follower_id f, fl_following_id f)) ` set (follows s)
      then Inl SQLITE_CONSTRAINT_UNIQUE
      else if fl_id r \<in> fl_id ` set (follows s) then Inl SQLITE_CONSTRAINT_PRIMARYKEY
      else if fk \<and> (fl_follower_id r \<notin> pr_id ` set (profiles s)
                    \<or> fl_following_id r \<notin> pr_id ` set (profiles s))
      then Inl SQLITE_CONSTRAINT_FOREIGNKEY
      else Inr (s\<lparr>follows := follows s @ [r]\<rparr>))"

text \<open>
  \<^verbatim>\<open>DELETE FROM posts WHERE id = ? AND author_id = ?\<close>. The likes and comments tables
  reference \<^verbatim>\<open>posts(id)\<close> with no \<^verbatim>\<open>ON DELETE\<close> action, so with foreign keys enforced the
  statement fails when a like or comment would be left pointing at a post id that no
  remaining row carries. The result is the number of rows removed (\<^verbatim>\<open>changes\<close>).
\<close>

definition delete_post :: "bool \<Rightarrow> db \<Rightarrow> string \<Rightarrow> string \<Rightarrow> sqlite_error + (nat \<times> db)" where
  "delete_post fk s id' authorId =
     (let gone = filter (\<lambda>p. po_id p = id' \<and> po_author_id p = authorId) (posts s);
          kept = filter (\<lambda>p. \<not> (po_id p = id' \<and> po_author_id p = authorId)) (posts s);
          dangling = (\<lambda>k. k \<in> po_id ` set gone \<and> k \<notin> po_id ` set kept)
      in if fk \<and> ((\<exists>l \<in> set (likes s). dangling (lk_post_id l))
                   \<or> (\<exists>c \<in> set (comments s). dangling (cm_post_id c)))
         then Inl SQLITE_CONSTRAINT_FOREIGNKEY
         else Inr (length gone, s\<lparr>posts := kept\<rparr>))"

definition delete_like :: "db \<Rightarrow> string \<Rightarrow> string \<Rightarrow> nat \<times> db" where
  "delete_like s postId userId =
     (length (filter (\<lambda>l. lk_post_id l = postId \<and> lk_user_id l = userId) (likes s)),
      s\<lparr>likes := filter (\<lambda>l. \<not> (lk_post_id l = postId \<and> lk_user_id l = userId)) (likes s)\<rparr>)"

definition delete_comment :: "db \<Rightarrow> string \<Rightarrow> string \<Rightarrow> nat \<times> db" where
  "delete_comment s id' authorId =
     (length (filter (\<lambda>c. cm_id c = id' \<and> cm_author_id c = authorId) (comments s)),
      s\<lparr>comments := filter (\<lambda>c. \<not> (cm_id c = id' \<and> cm_author_id c = authorId)) (comments s)\<rparr>)"

definition delete_follow :: "db \<Rightarrow> string \<Rightarrow> string \<Rightarrow> nat \<times> db" where
  "delete_follow s followerId followingId =
     (length (filter (\<lambda>f. fl_follower_id f = followerId \<and> fl_following_id f = followingId)
                (follows s)),
      s\<lparr>follows := filter (\<lambda>f. \<not> (fl_follower_id f = followerId
                                     \<and> fl_following_id f = followingId)) (follows s)\<rparr>)"

subsection \<open>Ordering and paging of query results\<close>

text \<open>
  \<^verbatim>\<open>ORDER BY k DESC\<close> and \<^verbatim>\<open>ORDER BY k ASC\<close> as stable sorts: rows with equal keys stay in
  rowid order. SQL leaves the order of ties open; SQLite reads the rows through an index
  of the schema (\<^verbatim>\<open>idx_posts_created\<close> for the feed), whose entries with equal keys are in
  rowid order. \<^verbatim>\<open>LIMIT ? OFFSET ?\<close> follows SQLite: a negative limit is no limit, a
  negative offset is zero.

  The two parameters are JavaScript numbers, which better-sqlite3 binds as they are.
  \<open>Integer i\<close> is a number with the integral value \<open>i\<close>; \<open>NonInteger\<close> is any other
  number (one with a fraction, an infinity, \<^verbatim>\<open>NaN\<close>). SQLite takes a limit or an offset only
  when it converts to a 64-bit integer without loss and is neither the least nor the
  greatest of them; for every other value the statement fails with \<^verbatim>\<open>SQLITE_MISMATCH\<close>
  before it returns a row.
\<close>

definition order_by_desc :: "('a \<Rightarrow> string) \<Rightarrow> 'a list \<Rightarrow> 'a list" where
  "order_by_desc k xs = rev (sort_key k (rev xs))"

definition order_by_asc :: "('a \<Rightarrow> string) \<Rightarrow> 'a list \<Rightarrow> 'a list" where
  "order_by_asc k xs = sort_key k xs"

definition sql_limit :: "int \<Rightarrow> int \<Rightarrow> 'a list \<Rightarrow> 'a list" where
  "sql_limit lim off xs =
     (let ys = drop (nat off) xs in if lim < 0 then ys else take (nat lim) ys)"

datatype number = Integer int | NonInteger

fun must_be_int :: "number \<Rightarrow> sqlite_error + int" where
  "must_be_int (Integer i) =
     (if - (2 ^ 63) < i \<and> i < 2 ^ 63 - 1 then Inr i else Inl SQLITE_MISMATCH)"
| "must_be_int NonInteger = Inl SQLITE_MISMATCH"

definition limit_offset :: "number \<Rightarrow> number \<Rightarrow> 'a list \<Rightarrow> sqlite_error + 'a list" where
  "limit_offset lim off xs =
     (case must_be_int lim of
        Inl e \<Rightarrow> Inl e
      | Inr l \<Rightarrow> (case must_be_int off of
                    Inl e \<Rightarrow> Inl e
                  | Inr k \<Rightarrow> Inr (sql_limit l k xs)))"

subsection \<open>Timestamps\<close>

text \<open>
  \<^verbatim>\<open>created_at\<close> is a text column. The value \<^verbatim>\<open>CURRENT_TIMESTAMP\<close> gives it is the UTC date and
  time of the clock, to the second, as \<^verbatim>\<open>YYYY-MM-DD HH:MM:SS\<close>. JavaScript's
  \<^verbatim>\<open>Date.prototype.toISOString\<close>, which \<^verbatim>\<open>seedDemoData\<close> uses, writes the same reading as
  \<^verbatim>\<open>YYYY-MM-DDTHH:mm:ss.sssZ\<close>. \<open>earlier\<close> is the chronological order of two clock
  readings, to the second.
\<close>

record clock =
  clk_year :: nat
  clk_month :: nat
  clk_day :: nat
  clk_hour :: nat
  clk_minute :: nat
  clk_second :: nat
  clk_millis :: nat

definition digit :: "nat \<Rightarrow> char" where
  "digit n = char_of (48 + n)"

definition pad2 :: "nat \<Rightarrow> string" where
  "pad2 n = [digit (n div 10 mod 10), digit (n mod 10)]"

definition pad4 :: "nat \<Rightarrow> string" where
  "pad4 n = pad2 (n div 100) @ pad2 (n mod 100)"

definition current_timestamp :: "clock \<Rightarrow> string" where
  "current_timestamp c =
     pad4 (clk_year c) @ ''-'' @ pad2 (clk_month c) @ ''-'' @ pad2 (clk_day c) @ '' ''
       @ pad2 (clk_hour c) @ '':'' @ pad2 (clk_minute c) @ '':'' @ pad2 (clk_second c)"

definition pad3 :: "nat \<Rightarrow> string" where
  "pad3 n = [digit (n div 100 mod 10), digit (n div 10 mod 10), digit (n mod 10)]"

definition toISOString :: "clock \<Rightarrow> string" where
  "toISOString c =
     pad4 (clk_year c) @ ''-'' @ pad2 (clk_month c) @ ''-'' @ pad2 (clk_day c) @ ''T''
       @ pad2 (clk_hour c) @ '':'' @ pad2 (clk_minute c) @ '':'' @ pad2 (clk_second c)
       @ ''.'' @ pad3 (clk_millis c) @ ''Z''"

definition clock_ok :: "clock \<Rightarrow> bool" where
  "clock_ok c =
     (clk_year c < 10000 \<and> clk_month c < 100 \<and> clk_day c < 100 \<and> clk_hour c < 100
      \<and> clk_minute c < 100 \<and> clk_second c < 100)"

definition earlier :: "clock \<Rightarrow> clock \<Rightarrow> bool" where
  "earlier a b =
     (clk_year a < clk_year b \<or> clk_year a = clk_year b \<and>
     (clk_month a < clk_month b \<or> clk_month a = clk_month b \<and>
     (clk_day a < clk_day b \<or> clk_day a = clk_day b \<and>
     (clk_hour a < clk_hour b \<or> clk_hour a = clk_hour b \<and>
     (clk_minute a < clk_minute b \<or> clk_minute a = clk_minute b \<and>
      clk_second a < clk_second b)))))"

subsection \<open>Auth cookies and profiles\<close>

definition createAuthCookie :: "db \<Rightarrow> string \<Rightarrow> string \<Rightarrow> string \<Rightarrow> sqlite_error + (string \<times> db)" where
  "createAuthCookie s cookieValue now atxpAccount =
     (case insert_auth_cookie s \<lparr>ck_cookie_value = cookieValue, ck_atxp_account = atxpAccount,
                                 ck_created_at = now\<rparr> of
        Inl e \<Rightarrow> Inl e
      | Inr s' \<Rightarrow> Inr (cookieValue, s'))"

definition getAtxpAccountFromCookie :: "db \<Rightarrow> string \<Rightarrow> string option" where
  "getAtxpAccountFromCookie s cookieValue =
     (case find (\<lambda>c. ck_cookie_value c = cookieValue) (auth_cookies s) of
        None \<Rightarrow> None
      | Some c \<Rightarrow> if ck_atxp_account c = [] then None else Some (ck_atxp_account c))"

definition getProfileByAtxp :: "db \<Rightarrow> string \<Rightarrow> profile option" where
  "getProfileByAtxp s atxpAccount = find (\<lambda>p. pr_atxp_account p = atxpAccount) (profiles s)"

definition getProfileById :: "db \<Rightarrow> string \<Rightarrow> profile option" where
  "getProfileById s id' = find (\<lambda>p. pr_id p = id') (profiles s)"

definition getProfileByUsername :: "db \<Rightarrow> string \<Rightarrow> profile option" where
  "getProfileByUsername s username = find (\<lambda>p. pr_username p = username) (profiles s)"

text \<open>
  \<^verbatim>\<open>createProfile\<close> inserts four columns; \<^verbatim>\<open>bio\<close>, \<^verbatim>\<open>avatar_url\<close> and
  \<^verbatim>\<open>created_at\<close> take the schema's defaults (\<^verbatim>\<open>''\<close>, NULL, \<^verbatim>\<open>CURRENT_TIMESTAMP\<close>). There is
  no \<^verbatim>\<open>try\<close> around the insert. The function returns \<^verbatim>\<open>getProfileById(id)!\<close>, which at
  run time is whatever the lookup gives.
\<close>

definition createProfile ::
  "db \<Rightarrow> string \<Rightarrow> string \<Rightarrow> string \<Rightarrow> string \<Rightarrow> string \<Rightarrow> sqlite_error + (profile option \<times> db)" where
  "createProfile s uuid now atxpAccount username displayName =
     (case insert_profile s \<lparr>pr_id = uuid, pr_atxp_account = atxpAccount,
                              pr_username = username, pr_display_name = displayName,
                              pr_bio = [], pr_avatar_url = None, pr_created_at = now\<rparr> of
        Inl e \<Rightarrow> Inl e
      | Inr s' \<Rightarrow> Inr (getProfileById s' uuid, s'))"

text \<open>
  The patch bag of \<^verbatim>\<open>updateProfile\<close>: a field that is \<^verbatim>\<open>undefined\<close> is \<open>None\<close>. The
  function collects one assignment for every field that is not \<^verbatim>\<open>undefined\<close> and runs
  the \<^verbatim>\<open>UPDATE\<close> only when there is at least one.
\<close>

record profile_updates =
  upd_display_name :: "string option"
  upd_bio :: "string option"
  upd_avatar_url :: "string option"

datatype profile_column = Col_display_name | Col_bio | Col_avatar_url

fun assign_column :: "profile_column \<times> string \<Rightarrow> profile \<Rightarrow> profile" where
  "assign_column (Col_display_name, v) r = r\<lparr>pr_display_name := v\<rparr>"
| "assign_column (Col_bio, v) r = r\<lparr>pr_bio := v\<rparr>"
| "assign_column (Col_avatar_url, v) r = r\<lparr>pr_avatar_url := Some v\<rparr>"

definition update_profile :: "db \<Rightarrow> (profile_column \<times> string) list \<Rightarrow> string \<Rightarrow> db" where
  "update_profile s sets id' =
     s\<lparr>profiles := map (\<lambda>r. if pr_id r = id' then fold assign_column sets r else r) (profiles s)\<rparr>"

definition updateProfile :: "db \<Rightarrow> string \<Rightarrow> profile_updates \<Rightarrow> db" where
  "updateProfile s id' updates =
     (let sets = (case upd_display_name updates of None \<Rightarrow> [] | Some v \<Rightarrow> [(Col_display_name, v)])
               @ (case upd_bio updates of None \<Rightarrow> [] | Some v \<Rightarrow> [(Col_bio, v)])
               @ (case upd_avatar_url updates of None \<Rightarrow> [] | Some v \<Rightarrow> [(Col_avatar_url, v)])
      in if length sets > 0 then update_profile s sets id' else s)"

subsection \<open>Posts\<close>

definition createPost ::
  "bool \<Rightarrow> db \<Rightarrow> string \<Rightarrow> string \<Rightarrow> string \<Rightarrow> string \<Rightarrow> string \<Rightarrow> sqlite_error + (post option \<times> db)" where
  "createPost fk s uuid now authorId imageUrl caption =
     (case insert_post fk s \<lparr>po_id = uuid, po_author_id = authorId, po_image_url = imageUrl,
                              po_caption = caption, po_created_at = now\<rparr> of
        Inl e \<Rightarrow> Inl e
      | Inr s' \<Rightarrow> Inr (find (\<lambda>p. po_id p = uuid) (posts s'), s'))"

text \<open>\<^verbatim>\<open>FROM posts p JOIN profiles pr ON p.author_id = pr.id\<close>: one row for every pair that matches.\<close>

definition posts_join_profiles :: "db \<Rightarrow> (post \<times> profile) list" where
  "posts_join_profiles s =
     concat (map (\<lambda>p. map (\<lambda>pr. (p, pr)) (filter (\<lambda>pr. po_author_id p = pr_id pr) (profiles s)))
               (posts s))"

text \<open>
  The select list shared by \<^verbatim>\<open>getPostById\<close>, \<^verbatim>\<open>getFeed\<close> and \<^verbatim>\<open>getPostsByUser\<close>. The
  \<^verbatim>\<open>is_liked\<close> column is spliced into the query under \<^verbatim>\<open>viewerId ? ... : ''\<close>, a JavaScript
  truthiness test: it is left out for \<^verbatim>\<open>undefined\<close> and for the empty string. SQLite hands
  the value of \<^verbatim>\<open>COUNT(*) > 0\<close> back as 1 or 0; the model writes it as a \<open>bool\<close>.
\<close>

definition post_details :: "db \<Rightarrow> string option \<Rightarrow> post \<Rightarrow> profile \<Rightarrow> post_with_details" where
  "post_details s viewerId p pr =
     \<lparr>po_id = po_id p, po_author_id = po_author_id p, po_image_url = po_image_url p,
      po_caption = po_caption p, po_created_at = po_created_at p,
      author_username = pr_username pr,
      author_display_name = pr_display_name pr,
      author_avatar_url = pr_avatar_url pr,
      like_count = length (filter (\<lambda>l. lk_post_id l = po_id p) (likes s)),
      comment_count = length (filter (\<lambda>c. cm_post_id c = po_id p) (comments s)),
      is_liked =
        (case viewerId of
           None \<Rightarrow> None
         | Some v \<Rightarrow>
             if v = [] then None
             else Some (length (filter (\<lambda>l. lk_post_id l = po_id p \<and> lk_user_id l = v) (likes s)) > 0))\<rparr>"

definition getPostById :: "db \<Rightarrow> string \<Rightarrow> string option \<Rightarrow> post_with_details option" where
  "getPostById s id' viewerId =
     (case filter (\<lambda>(p, pr). po_id p = id') (posts_join_profiles s) of
        [] \<Rightarrow> None
      | (p, pr) # _ \<Rightarrow> Some (post_details s viewerId p pr))"

text \<open>
  \<^verbatim>\<open>limit = 20, offset = 0\<close>: a parameter left \<^verbatim>\<open>undefined\<close> (\<open>None\<close>) takes its default.
\<close>

definition getFeed ::
  "db \<Rightarrow> string option \<Rightarrow> number option \<Rightarrow> number option
     \<Rightarrow> sqlite_error + post_with_details list" where
  "getFeed s viewerId limit offset =
     limit_offset (case limit of None \<Rightarrow> Integer 20 | Some l \<Rightarrow> l)
       (case offset of None \<Rightarrow> Integer 0 | Some off \<Rightarrow> off)
       (map (\<lambda>(p, pr). post_details s viewerId p pr)
          (order_by_desc (\<lambda>(p, pr). po_created_at p) (posts_join_profiles s)))"

definition getPostsByUser ::
  "db \<Rightarrow> string \<Rightarrow> string option \<Rightarrow> number option \<Rightarrow> number option
     \<Rightarrow> sqlite_error + post_with_details list" where
  "getPostsByUser s userId viewerId limit offset =
     limit_offset (case limit of None \<Rightarrow> Integer 20 | Some l \<Rightarrow> l)
       (case offset of None \<Rightarrow> Integer 0 | Some off \<Rightarrow> off)
       (map (\<lambda>(p, pr). post_details s viewerId p pr)
          (order_by_desc (\<lambda>(p, pr). po_created_at p)
             (filter (\<lambda>(p, pr). po_author_id p = userId) (posts_join_profiles s))))"

definition deletePost :: "bool \<Rightarrow> db \<Rightarrow> string \<Rightarrow> string \<Rightarrow> sqlite_error + (bool \<times> db)" where
  "deletePost fk s id' authorId =
     (case delete_post fk s id' authorId of
        Inl e \<Rightarrow> Inl e
      | Inr (changes, s') \<Rightarrow> Inr (changes > 0, s'))"

definition getPostCount :: "db \<Rightarrow> string \<Rightarrow> nat" where
  "getPostCount s userId = length (filter (\<lambda>p. po_author_id p = userId) (posts s))"

subsection \<open>Likes\<close>

text \<open>The \<^verbatim>\<open>try\<close>/\<^verbatim>\<open>catch\<close> of \<^verbatim>\<open>likePost\<close> turns every error of the insert into \<^verbatim>\<open>false\<close>.\<close>

definition likePost :: "bool \<Rightarrow> db \<Rightarrow> string \<Rightarrow> string \<Rightarrow> string \<Rightarrow> string \<Rightarrow> sqlite_error + (bool \<times> db)" where
  "likePost fk s uuid now postId userId =
     (case insert_like fk s \<lparr>lk_id = uuid, lk_post_id = postId, lk_user_id = userId,
                              lk_created_at = now\<rparr> of
        Inl e \<Rightarrow> Inr (False, s)
      | Inr s' \<Rightarrow> Inr (True, s'))"

definition unlikePost :: "db \<Rightarrow> string \<Rightarrow> string \<Rightarrow> sqlite_error + (bool \<times> db)" where
  "unlikePost s postId userId =
     (case delete_like s postId userId of (changes, s') \<Rightarrow> Inr (changes > 0, s'))"

text \<open>
  \<^verbatim>\<open>FROM profiles pr JOIN likes l ON pr.id = l.user_id WHERE l.post_id = ?
  ORDER BY l.created_at DESC LIMIT ?\<close>. The likes of the post are found through
  \<^verbatim>\<open>idx_likes_post\<close>, in rowid order, and each is joined with its profile.
\<close>

definition getPostLikers :: "db \<Rightarrow> string \<Rightarrow> number option \<Rightarrow> sqlite_error + profile list" where
  "getPostLikers s postId limit =
     (case must_be_int (case limit of None \<Rightarrow> Integer 50 | Some l \<Rightarrow> l) of
        Inl e \<Rightarrow> Inl e
      | Inr lim \<Rightarrow>
          Inr (map snd
                 (sql_limit lim 0
                    (order_by_desc (\<lambda>(l, pr). lk_created_at l)
                       (concat (map (\<lambda>l. map (Pair l)
                                            (filter (\<lambda>pr. pr_id pr = lk_user_id l) (profiles s)))
                                  (filter (\<lambda>l. lk_post_id l = postId) (likes s))))))))"

subsection \<open>Comments\<close>

definition comments_join_profiles :: "db \<Rightarrow> comment_with_author list" where
  "comments_join_profiles s =
     concat (map (\<lambda>c. map (\<lambda>pr. \<lparr>cm_id = cm_id c, cm_post_id = cm_post_id c,
                                  cm_author_id = cm_author_id c, cm_content = cm_content c,
                                  cm_created_at = cm_created_at c,
                                  cm_author_username = pr_username pr,
                                  cm_author_display_name = pr_display_name pr,
                                  cm_author_avatar_url = pr_avatar_url pr\<rparr>)
                       (filter (\<lambda>pr. cm_author_id c = pr_id pr) (profiles s)))
               (comments s))"

definition addComment ::
  "bool \<Rightarrow> db \<Rightarrow> string \<Rightarrow> string \<Rightarrow> string \<Rightarrow> string \<Rightarrow> string
     \<Rightarrow> sqlite_error + (comment_with_author option \<times> db)" where
  "addComment fk s uuid now postId authorId content =
     (case insert_comment fk s \<lparr>cm_id = uuid, cm_post_id = postId, cm_author_id = authorId,
                                 cm_content = content, cm_created_at = now\<rparr> of
        Inl e \<Rightarrow> Inl e
      | Inr s' \<Rightarrow> Inr (find (\<lambda>c. cm_id c = uuid) (comments_join_profiles s'), s'))"

definition getPostComments ::
  "db \<Rightarrow> string \<Rightarrow> number option \<Rightarrow> number option \<Rightarrow> sqlite_error + comment_with_author list" where
  "getPostComments s postId limit offset =
     limit_offset (case limit of None \<Rightarrow> Integer 50 | Some l \<Rightarrow> l)
       (case offset of None \<Rightarrow> Integer 0 | Some off \<Rightarrow> off)
       (order_by_asc cm_created_at
          (filter (\<lambda>c. cm_post_id c = postId) (comments_join_profiles s)))"

definition deleteComment :: "db \<Rightarrow> string \<Rightarrow> string \<Rightarrow> sqlite_error + (bool \<times> db)" where
  "deleteComment s id' authorId =
     (case delete_comment s id' authorId of (changes, s') \<Rightarrow> Inr (changes > 0, s'))"

subsection \<open>Follows\<close>

definition followUser :: "bool \<Rightarrow> db \<Rightarrow> string \<Rightarrow> string \<Rightarrow> string \<Rightarrow> string \<Rightarrow> sqlite_error + (bool \<times> db)" where
  "followUser fk s uuid now followerId followingId =
     (if followerId = followingId then Inr (False, s)
      else case insert_follow fk s \<lparr>fl_id = uuid, fl_follower_id = followerId,
                                     fl_following_id = followingId, fl_created_at = now\<rparr> of
             Inl e \<Rightarrow> Inr (False, s)
           | Inr s' \<Rightarrow> Inr (True, s'))"

definition unfollowUser :: "db \<Rightarrow> string \<Rightarrow> string \<Rightarrow> sqlite_error + (bool \<times> db)" where
  "unfollowUser s followerId followingId =
     (case delete_follow s followerId followingId of (changes, s') \<Rightarrow> Inr (changes > 0, s'))"

text \<open>
  \<^verbatim>\<open>FROM profiles pr JOIN follows f ON pr.id = f.follower_id WHERE f.following_id = ?
  ORDER BY f.created_at DESC LIMIT ?\<close>, and the same with the two columns exchanged. The
  follow rows of the user are found through \<^verbatim>\<open>idx_follows_following\<close>
  (\<^verbatim>\<open>idx_follows_follower\<close>), in rowid order, and each is joined with its profile; so rows
  with equal \<^verbatim>\<open>created_at\<close> come out in the order of the follow rows.
\<close>

definition getFollowers :: "db \<Rightarrow> string \<Rightarrow> number option \<Rightarrow> sqlite_error + profile list" where
  "getFollowers s userId limit =
     (case must_be_int (case limit of None \<Rightarrow> Integer 50 | Some l \<Rightarrow> l) of
        Inl e \<Rightarrow> Inl e
      | Inr lim \<Rightarrow>
          Inr (map snd
                 (sql_limit lim 0
                    (order_by_desc (\<lambda>(f, pr). fl_created_at f)
                       (concat (map (\<lambda>f. map (Pair f)
                                            (filter (\<lambda>pr. pr_id pr = fl_follower_id f) (profiles s)))
                                  (filter (\<lambda>f. fl_following_id f = userId) (follows s))))))))"

definition getFollowing :: "db \<Rightarrow> string \<Rightarrow> number option \<Rightarrow> sqlite_error + profile list" where
  "getFollowing s userId limit =
     (case must_be_int (case limit of None \<Rightarrow> Integer 50 | Some l \<Rightarrow> l) of
        Inl e \<Rightarrow> Inl e
      | Inr lim \<Rightarrow>
          Inr (map snd
                 (sql_limit lim 0
                    (order_by_desc (\<lambda>(f, pr). fl_created_at f)
                       (concat (map (\<lambda>f. map (Pair f)
                                            (filter (\<lambda>pr. pr_id pr = fl_following_id f) (profiles s)))
                                  (filter (\<lambda>f. fl_follower_id f = userId) (follows s))))))))"

definition isFollowing :: "db \<Rightarrow> string \<Rightarrow> string \<Rightarrow> bool" where
  "isFollowing s followerId followingId =
     (filter (\<lambda>f. fl_follower_id f = followerId \<and> fl_following_id f = followingId) (follows s) \<noteq> [])"

definition getFollowerCount :: "db \<Rightarrow> string \<Rightarrow> nat" where
  "getFollowerCount s userId = length (filter (\<lambda>f. fl_following_id f = userId) (follows s))"

definition getFollowingCount :: "db \<Rightarrow> string \<Rightarrow> nat" where
  "getFollowingCount s userId = length (filter (\<lambda>f. fl_follower_id f = userId) (follows s))"

subsection \<open>Seed data\<close>

text \<open>
  \<^verbatim>\<open>seedDemoData\<close> runs once at start-up and does nothing when a profile exists. It inserts
  the demo profile and then one post for each entry of \<^verbatim>\<open>seedPosts\<close>, each insert a
  statement of its own, so an error leaves the rows inserted before it. \<open>uuidAt i\<close> is the
  identifier drawn in round \<open>i\<close> of the loop and \<open>dateHoursAgo h\<close> the clock reading
  \<open>h\<close> hours before the call (the \<^verbatim>\<open>Date\<close> that \<^verbatim>\<open>hoursAgo\<close> builds), which
  \<^verbatim>\<open>toISOString\<close> turns into the text stored as \<^verbatim>\<open>created_at\<close>. The emoji of the seed texts
  are left out of the literals.
\<close>

definition seedPosts :: "(string \<times> string) list" where
  "seedPosts =
     [(''https://novellum-filestore-mcp.s3.us-east-2.amazonaws.com/atxp:atxp_acct_ZNHqjjHpX5jmn5o8ktD9G/a985cf47-f587-40b5-a0a3-f9ea7c02573b.png'',
       ''A cyberpunk lobster in neon city lights Generated with ATXP image generation!''),
      (''https://novellum-filestore-mcp.s3.us-east-2.amazonaws.com/atxp:atxp_acct_ZNHqjjHpX5jmn5o8ktD9G/8372217c-22f2-4e75-b2bc-e9bbe1bfc16d.png'',
       ''Abstract digital ocean waves with bioluminescent creatures Created with npx atxp image''),
      (''https://novellum-filestore-mcp.s3.us-east-2.amazonaws.com/atxp:atxp_acct_ZNHqjjHpX5jmn5o8ktD9G/0ea3445d-5f06-458f-b798-3e5f9be1a7c3.png'',
       ''Futuristic robot garden with chrome flowers and neon butterflies AI art is beautiful!'')]"

definition seed_post :: "string \<Rightarrow> (nat \<Rightarrow> string) \<Rightarrow> (nat \<Rightarrow> clock) \<Rightarrow> nat \<Rightarrow> post" where
  "seed_post demoAgentId uuidAt dateHoursAgo i =
     (let hoursAgo = (\<lambda>hours. toISOString (dateHoursAgo hours));
          postTimestamps = map hoursAgo [2, 8, 26, 52, 96];
          createdAt = (if i < length postTimestamps \<and> postTimestamps ! i \<noteq> []
                       then postTimestamps ! i else hoursAgo (120 + i * 24))
      in \<lparr>po_id = uuidAt i, po_author_id = demoAgentId, po_image_url = fst (seedPosts ! i),
          po_caption = snd (seedPosts ! i), po_created_at = createdAt\<rparr>)"

fun seed_loop ::
  "bool \<Rightarrow> string \<Rightarrow> (nat \<Rightarrow> string) \<Rightarrow> (nat \<Rightarrow> clock) \<Rightarrow> nat list \<Rightarrow> db \<Rightarrow> (sqlite_error + unit) \<times> db" where
  "seed_loop fk demoAgentId uuidAt dateHoursAgo [] s = (Inr (), s)"
| "seed_loop fk demoAgentId uuidAt dateHoursAgo (i # rest) s =
     (case insert_post fk s (seed_post demoAgentId uuidAt dateHoursAgo i) of
        Inl e \<Rightarrow> (Inl e, s)
      | Inr s' \<Rightarrow> seed_loop fk demoAgentId uuidAt dateHoursAgo rest s')"

definition demo_profile :: "string \<Rightarrow> string \<Rightarrow> profile" where
  "demo_profile demoAgentId now =
     \<lparr>pr_id = demoAgentId, pr_atxp_account = ''atxp:demo-instaclaw-agent'',
      pr_username = ''instaclaw_bot'', pr_display_name = ''Instaclaw Bot'',
      pr_bio = ''The official Instaclaw demo bot. Sharing AI-generated art to get the party started!'',
      pr_avatar_url = None, pr_created_at = now\<rparr>"

definition seedDemoData ::
  "bool \<Rightarrow> db \<Rightarrow> string \<Rightarrow> string \<Rightarrow> (nat \<Rightarrow> string) \<Rightarrow> (nat \<Rightarrow> clock) \<Rightarrow> (sqlite_error + unit) \<times> db" where
  "seedDemoData fk s demoAgentId now uuidAt dateHoursAgo =
     (if length (profiles s) > 0 then (Inr (), s)
      else case insert_profile s (demo_profile demoAgentId now) of
             Inl e \<Rightarrow> (Inl e, s)
           | Inr s' \<Rightarrow> seed_loop fk demoAgentId uuidAt dateHoursAgo [0..<length seedPosts] s')"

subsection \<open>Reachable states\<close>

text \<open>
  A command is one call of a mutating function of the module with its arguments and the
  values it drew from the environment. \<open>exec\<close> gives the database after the call; a call
  that throws leaves what its statements had done before. \<^verbatim>\<open>crypto.randomUUID()\<close>
  returns the 36 characters of a version 4 UUID, which is all \<open>env_ok\<close> asks of a command.
\<close>

datatype command =
    CreateAuthCookie string string string
  | CreateProfile string string string string string
  | UpdateProfile string profile_updates
  | CreatePost string string string string string
  | DeletePost string string
  | LikePost string string string string
  | UnlikePost string string
  | AddComment string string string string string
  | DeleteComment string string
  | FollowUser string string string string
  | UnfollowUser string string
  | SeedDemoData string string "nat \<Rightarrow> string" "nat \<Rightarrow> clock"

definition state_after :: "db \<Rightarrow> sqlite_error + ('a \<times> db) \<Rightarrow> db" where
  "state_after s r = (case r of Inl e \<Rightarrow> s | Inr (v, s') \<Rightarrow> s')"

fun exec :: "bool \<Rightarrow> db \<Rightarrow> command \<Rightarrow> db" where
  "exec fk s (CreateAuthCookie cookieValue now atxpAccount) =
     state_after s (createAuthCookie s cookieValue now atxpAccount)"
| "exec fk s (CreateProfile uuid now atxpAccount username displayName) =
     state_after s (createProfile s uuid now atxpAccount username displayName)"
| "exec fk s (UpdateProfile id' updates) = updateProfile s id' updates"
| "exec fk s (CreatePost uuid now authorId imageUrl caption) =
     state_after s (createPost fk s uuid now authorId imageUrl caption)"
| "exec fk s (DeletePost id' authorId) = state_after s (deletePost fk s id' authorId)"
| "exec fk s (LikePost uuid now postId userId) = state_after s (likePost fk s uuid now postId userId)"
| "exec fk s (UnlikePost postId userId) = state_after s (unlikePost s postId userId)"
| "exec fk s (AddComment uuid now postId authorId content) =
     state_after s (addComment fk s uuid now postId authorId content)"
| "exec fk s (DeleteComment id' authorId) = state_after s (deleteComment s id' authorId)"
| "exec fk s (FollowUser uuid now followerId followingId) =
     state_after s (followUser fk s uuid now followerId followingId)"
| "exec fk s (UnfollowUser followerId followingId) =
     state_after s (unfollowUser s followerId followingId)"
| "exec fk s (SeedDemoData demoAgentId now uuidAt dateHoursAgo) =
     snd (seedDemoData fk s demoAgentId now uuidAt dateHoursAgo)"

definition uuid_shaped :: "string \<Rightarrow> bool" where
  "uuid_shaped u = (length u = 36)"

fun env_ok :: "command \<Rightarrow> bool" where
  "env_ok (CreateProfile uuid now atxpAccount username displayName) = uuid_shaped uuid"
| "env_ok (CreatePost uuid now authorId imageUrl caption) = uuid_shaped uuid"
| "env_ok (LikePost uuid now postId userId) = uuid_shaped uuid"
| "env_ok (AddComment uuid now postId authorId content) = uuid_shaped uuid"
| "env_ok (FollowUser uuid now followerId followingId) = uuid_shaped uuid"
| "env_ok (SeedDemoData demoAgentId now uuidAt dateHoursAgo) =
     (uuid_shaped demoAgentId \<and> list_all (\<lambda>i. uuid_shaped (uuidAt i)) [0..<length seedPosts])"
| "env_ok _ = True"

inductive reachable :: "bool \<Rightarrow> db \<Rightarrow> bool" for fk :: bool where
  reachable_init: "reachable fk empty_db"
| reachable_step: "reachable fk s \<Longrightarrow> env_ok c \<Longrightarrow> reachable fk (exec fk s c)"

subsection \<open>Properties of a database state\<close>

definition keys_unique :: "db \<Rightarrow> bool" where
  "keys_unique s =
     (distinct (map pr_id (profiles s))
      \<and> distinct (map po_id (posts s))
      \<and> distinct (map (\<lambda>l. (lk_post_id l, lk_user_id l)) (likes s))
      \<and> distinct (map (\<lambda>f. (fl_follower_id f, fl_following_id f)) (follows s)))"

definition no_self_follow :: "db \<Rightarrow> bool" where
  "no_self_follow s = (\<forall>f \<in> set (follows s). fl_follower_id f \<noteq> fl_following_id f)"

definition refs_exist :: "db \<Rightarrow> bool" where
  "refs_exist s =
     ((\<forall>p \<in> set (posts s). po_author_id p \<in> pr_id ` set (profiles s))
      \<and> (\<forall>l \<in> set (likes s). lk_post_id l \<in> po_id ` set (posts s)
                              \<and> lk_user_id l \<in> pr_id ` set (profiles s))
      \<and> (\<forall>c \<in> set (comments s). cm_post_id c \<in> po_id ` set (posts s)
                                 \<and> cm_author_id c \<in> pr_id ` set (profiles s))
      \<and> (\<forall>f \<in> set (follows s). fl_follower_id f \<in> pr_id ` set (profiles s)
                                \<and> fl_following_id f \<in> pr_id ` set (profiles s)))"

definition ids_shaped :: "db \<Rightarrow> bool" where
  "ids_shaped s = (\<forall>p \<in> set (profiles s). uuid_shaped (pr_id p))"

subsection \<open>An example run\<close>

text \<open>
  Two profiles and three posts (\<open>base_db\<close>), then a like, a comment and a follow
  (\<open>social_db\<close>); the concrete states at which the theorems below are instantiated.
\<close>

definition alice_id :: string where "alice_id = ''a11ce000-0000-4000-8000-000000000001''"
definition bob_id :: string where "bob_id = ''b0b00000-0000-4000-8000-000000000002''"
definition post1_id :: string where "post1_id = ''00000001-0000-4000-8000-0000000000e1''"
definition post2_id :: string where "post2_id = ''00000002-0000-4000-8000-0000000000e2''"
definition post3_id :: string where "post3_id = ''00000003-0000-4000-8000-0000000000e3''"
definition like1_id :: string where "like1_id = ''00000004-0000-4000-8000-0000000000f1''"
definition comment1_id :: string where "comment1_id = ''00000005-0000-4000-8000-0000000000c1''"
definition follow1_id :: string where "follow1_id = ''00000006-0000-4000-8000-0000000000d1''"

definition base_cmds :: "command list" where
  "base_cmds =
     [CreateProfile alice_id ''2026-01-01 09:00:00'' ''atxp:alice'' ''alice'' ''Alice'',
      CreateProfile bob_id ''2026-01-01 09:00:05'' ''atxp:bob'' ''bob'' ''Bob'',
      CreatePost post1_id ''2026-01-01 10:00:00'' bob_id ''/uploads/1.webp'' ''hi'',
      CreatePost post2_id ''2026-01-01 10:00:01'' alice_id ''/uploads/2.webp'' [],
      CreatePost post3_id ''2026-01-02 08:30:00'' bob_id ''/uploads/3.webp'' ''again'']"

definition social_cmds :: "command list" where
  "social_cmds =
     [LikePost like1_id ''2026-01-02 09:00:00'' post1_id alice_id,
      AddComment comment1_id ''2026-01-02 09:00:10'' post1_id alice_id ''nice'',
      FollowUser follow1_id ''2026-01-02 09:01:00'' alice_id bob_id]"

definition base_db :: db where
  "base_db =
     \<lparr>auth_cookies = [],
      profiles =
        [\<lparr>pr_id = alice_id, pr_atxp_account = ''atxp:alice'', pr_username = ''alice'',
          pr_display_name = ''Alice'', pr_bio = [], pr_avatar_url = None,
          pr_created_at = ''2026-01-01 09:00:00''\<rparr>,
         \<lparr>pr_id = bob_id, pr_atxp_account = ''atxp:bob'', pr_username = ''bob'',
          pr_display_name = ''Bob'', pr_bio = [], pr_avatar_url = None,
          pr_created_at = ''2026-01-01 09:00:05''\<rparr>],
      posts =
        [\<lparr>po_id = post1_id, po_author_id = bob_id, po_image_url = ''/uploads/1.webp'',
          po_caption = ''hi'', po_created_at = ''2026-01-01 10:00:00''\<rparr>,
         \<lparr>po_id = post2_id, po_author_id = alice_id, po_image_url = ''/uploads/2.webp'',
          po_caption = [], po_created_at = ''2026-01-01 10:00:01''\<rparr>,
         \<lparr>po_id = post3_id, po_author_id = bob_id, po_image_url = ''/uploads/3.webp'',
          po_caption = ''again'', po_created_at = ''2026-01-02 08:30:00''\<rparr>],
      likes = [], comments = [], follows = []\<rparr>"

definition social_db :: db where
  "social_db =
     base_db\<lparr>likes := [\<lparr>lk_id = like1_id, lk_post_id = post1_id, lk_user_id = alice_id,
                          lk_created_at = ''2026-01-02 09:00:00''\<rparr>],
             comments := [\<lparr>cm_id = comment1_id, cm_post_id = post1_id, cm_author_id = alice_id,
                             cm_content = ''nice'', cm_created_at = ''2026-01-02 09:00:10''\<rparr>],
             follows := [\<lparr>fl_id = follow1_id, fl_follower_id = alice_id,
                            fl_following_id = bob_id, fl_created_at = ''2026-01-02 09:01:00''\<rparr>]\<rparr>"

text \<open>
  A first start of the server, as \<^verbatim>\<open>main\<close> of index.ts runs it: \<^verbatim>\<open>getDb()\<close> creates the
  empty database and \<^verbatim>\<open>seedDemoData()\<close> fills it, here at 10:37:00.123 UTC on
  2026-01-01. Three minutes later alice registers and publishes a post (\<open>seeded_db\<close>).
  \<open>hours_before_boot h\<close> is the clock reading \<open>h\<close> hours before the start, for the
  754 hours back to the first of December.
\<close>

definition boot_clock :: clock where
  "boot_clock = \<lparr>clk_year = 2026, clk_month = 1, clk_day = 1, clk_hour = 10, clk_minute = 37,
                  clk_second = 0, clk_millis = 123\<rparr>"

definition hours_before_boot :: "nat \<Rightarrow> clock" where
  "hours_before_boot h =
     (let t = 754 - h
      in if 744 \<le> t then boot_clock\<lparr>clk_hour := t - 744\<rparr>
         else boot_clock\<lparr>clk_year := 2025, clk_month := 12, clk_day := t div 24 + 1,
                          clk_hour := t mod 24\<rparr>)"

definition post_clock :: clock where
  "post_clock = boot_clock\<lparr>clk_minute := 40, clk_millis := 518\<rparr>"

definition demo_id :: string where "demo_id = ''de300000-0000-4000-8000-00000000000d''"

definition seed_uuid :: "nat \<Rightarrow> string" where
  "seed_uuid i = ''5eed0000-0000-4000-8000-00000000000'' @ [digit (i mod 10)]"

definition seeded_cmds :: "command list" where
  "seeded_cmds =
     [SeedDemoData demo_id (current_timestamp boot_clock) seed_uuid hours_before_boot,
      CreateProfile alice_id (current_timestamp post_clock) ''atxp:alice'' ''alice'' ''Alice'',
      CreatePost post1_id (current_timestamp post_clock) alice_id ''/uploads/1.webp'' ''hi'']"

definition seeded_db :: db where
  "seeded_db = foldl (exec True) empty_db seeded_cmds"

text \<open>
  Three posts of alice, the first two published within one second of each other
  (\<open>burst_db\<close>).
\<close>

definition burst_clock :: "nat \<Rightarrow> nat \<Rightarrow> clock" where
  "burst_clock sec ms = \<lparr>clk_year = 2026, clk_month = 1, clk_day = 1, clk_hour = 10,
                         clk_minute = 0, clk_second = sec, clk_millis = ms\<rparr>"

definition burst_cmds :: "command list" where
  "burst_cmds =
     [CreateProfile alice_id ''2026-01-01 09:00:00'' ''atxp:alice'' ''alice'' ''Alice'',
      CreatePost post1_id (current_timestamp (burst_clock 0 100)) alice_id ''/uploads/1.webp'' ''one'',
      CreatePost post2_id (current_timestamp (burst_clock 0 900)) alice_id ''/uploads/2.webp'' ''two'',
      CreatePost post3_id (current_timestamp (burst_clock 1 300)) alice_id ''/uploads/3.webp'' ''three'']"

definition burst_db :: db where
  "burst_db = foldl (exec True) empty_db burst_cmds"

section \<open>Invariants of the reachable states\<close>

lemmas stmt_defs =
  insert_auth_cookie_def insert_profile_def insert_post_def insert_like_def insert_comment_def
  insert_follow_def delete_post_def delete_like_def delete_comment_def delete_follow_def

lemmas api_defs =
  createAuthCookie_def createProfile_def createPost_def deletePost_def likePost_def
  unlikePost_def addComment_def deleteComment_def followUser_def unfollowUser_def

lemma pr_id_assign_column [simp]: "pr_id (assign_column a r) = pr_id r"
  by (cases "(a, r)" rule: assign_column.cases) auto

lemma pr_id_fold_assign [simp]: "pr_id (fold assign_column sets r) = pr_id r"
  by (induction sets arbitrary: r) auto

lemma updateProfile_tables [simp]:
  "auth_cookies (updateProfile s i u) = auth_cookies s"
  "map pr_id (profiles (updateProfile s i u)) = map pr_id (profiles s)"
  "posts (updateProfile s i u) = posts s"
  "likes (updateProfile s i u) = likes s"
  "comments (updateProfile s i u) = comments s"
  "follows (updateProfile s i u) = follows s"
  by (simp_all add: updateProfile_def update_profile_def Let_def)

lemma pr_id_set_updateProfile [simp]:
  "pr_id ` set (profiles (updateProfile s i u)) = pr_id ` set (profiles s)"
  using updateProfile_tables(2)[of s i u] by (metis set_map)

lemma distinct_map_filter': "distinct (map f xs) \<Longrightarrow> distinct (map f (filter P xs))"
  by (induction xs) auto

lemma seed_loop_inv:
  assumes step: "\<And>s r s'. P s \<Longrightarrow> insert_post fk s r = Inr s' \<Longrightarrow> P s'"
  shows "P s \<Longrightarrow> P (snd (seed_loop fk a uuidAt h js s))"
proof (induction js arbitrary: s)
  case Nil
  then show ?case by simp
next
  case (Cons j js)
  then show ?case by (auto split: sum.splits intro: step)
qed

lemma seedDemoData_inv:
  assumes "\<And>s r s'. P s \<Longrightarrow> pr_id r = a \<Longrightarrow> insert_profile s r = Inr s' \<Longrightarrow> P s'"
      and "\<And>s r s'. P s \<Longrightarrow> insert_post fk s r = Inr s' \<Longrightarrow> P s'"
      and "P s"
  shows "P (snd (seedDemoData fk s a now uuidAt h))"
proof (cases "insert_profile s (demo_profile a now)")
  case (Inl e)
  then show ?thesis using assms(3) by (simp add: seedDemoData_def)
next
  case (Inr s1)
  have "pr_id (demo_profile a now) = a" by (simp add: demo_profile_def)
  from assms(1)[OF assms(3) this Inr] have "P s1" .
  have "P (snd (seed_loop fk a uuidAt h [0..<length seedPosts] s1))"
    by (rule seed_loop_inv[of P fk]) (fact assms(2), fact \<open>P s1\<close>)
  with Inr assms(3) show ?thesis by (simp add: seedDemoData_def)
qed

lemma exec_keys_unique: "keys_unique s \<Longrightarrow> keys_unique (exec fk s c)"
proof (cases c)
  case (SeedDemoData a now uuidAt h)
  assume k: "keys_unique s"
  have "keys_unique (snd (seedDemoData fk s a now uuidAt h))"
    by (rule seedDemoData_inv[where P = keys_unique, OF _ _ k])
       (auto simp: keys_unique_def stmt_defs split: if_splits)
  then show ?thesis using SeedDemoData by simp
qed (auto simp: keys_unique_def api_defs stmt_defs state_after_def Let_def distinct_map_filter'
          split: sum.splits if_splits prod.splits)

lemma exec_no_self_follow: "no_self_follow s \<Longrightarrow> no_self_follow (exec fk s c)"
proof (cases c)
  case (SeedDemoData a now uuidAt h)
  assume k: "no_self_follow s"
  have "no_self_follow (snd (seedDemoData fk s a now uuidAt h))"
    by (rule seedDemoData_inv[where P = no_self_follow, OF _ _ k])
       (auto simp: no_self_follow_def stmt_defs split: if_splits)
  then show ?thesis using SeedDemoData by simp
qed (auto simp: no_self_follow_def api_defs stmt_defs state_after_def Let_def
          split: sum.splits if_splits prod.splits)

lemma ids_shaped_image: "ids_shaped s = (\<forall>k \<in> pr_id ` set (profiles s). uuid_shaped k)"
  by (auto simp: ids_shaped_def)

lemma exec_ids_shaped: "ids_shaped s \<Longrightarrow> env_ok c \<Longrightarrow> ids_shaped (exec fk s c)"
proof (cases c)
  case (SeedDemoData a now uuidAt h)
  assume k: "ids_shaped s" and "env_ok c"
  then have a: "uuid_shaped a" using SeedDemoData by simp
  have "ids_shaped (snd (seedDemoData fk s a now uuidAt h))"
    by (rule seedDemoData_inv[where P = ids_shaped, OF _ _ k])
       (use a in \<open>auto simp: ids_shaped_def stmt_defs split: if_splits\<close>)
  then show ?thesis using SeedDemoData by simp
next
  case (UpdateProfile i u)
  assume "ids_shaped s"
  then show ?thesis using UpdateProfile by (simp add: ids_shaped_image)
qed (auto simp: ids_shaped_def api_defs stmt_defs state_after_def Let_def
          split: sum.splits if_splits prod.splits)

lemma filter_partition_image:
  "k \<in> f ` set xs \<Longrightarrow>
   \<not> (k \<in> f ` set (filter P xs) \<and> k \<notin> f ` set (filter (\<lambda>x. \<not> P x) xs)) \<Longrightarrow>
   k \<in> f ` set (filter (\<lambda>x. \<not> P x) xs)"
  by auto

lemma delete_post_refs_exist:
  assumes d: "delete_post True s i a = Inr (n, s')" and r: "refs_exist s"
  shows "refs_exist s'"
proof -
  let ?P = "\<lambda>p. po_id p = i \<and> po_author_id p = a"
  let ?kept = "filter (\<lambda>p. \<not> ?P p) (posts s)"
  from d have s': "s' = s\<lparr>posts := ?kept\<rparr>"
    and lk: "\<forall>l \<in> set (likes s). \<not> (lk_post_id l \<in> po_id ` set (filter ?P (posts s))
                \<and> lk_post_id l \<notin> po_id ` set ?kept)"
    and cm: "\<forall>c \<in> set (comments s). \<not> (cm_post_id c \<in> po_id ` set (filter ?P (posts s))
                \<and> cm_post_id c \<notin> po_id ` set ?kept)"
    by (simp_all add: delete_post_def Let_def split: if_splits)
  have 1: "\<forall>l \<in> set (likes s). lk_post_id l \<in> po_id ` set ?kept"
  proof
    fix l assume l: "l \<in> set (likes s)"
    with r have "lk_post_id l \<in> po_id ` set (posts s)" by (simp add: refs_exist_def)
    from filter_partition_image[OF this] lk l show "lk_post_id l \<in> po_id ` set ?kept" by blast
  qed
  have 2: "\<forall>c \<in> set (comments s). cm_post_id c \<in> po_id ` set ?kept"
  proof
    fix c assume c: "c \<in> set (comments s)"
    with r have "cm_post_id c \<in> po_id ` set (posts s)" by (simp add: refs_exist_def)
    from filter_partition_image[OF this] cm c show "cm_post_id c \<in> po_id ` set ?kept" by blast
  qed
  from r 1 2 show ?thesis unfolding s' refs_exist_def by simp
qed

lemma exec_refs_exist: "refs_exist s \<Longrightarrow> refs_exist (exec True s c)"
proof (cases c)
  case (SeedDemoData a now uuidAt h)
  assume k: "refs_exist s"
  have "refs_exist (snd (seedDemoData True s a now uuidAt h))"
    by (rule seedDemoData_inv[where P = refs_exist, OF _ _ k])
       (auto simp: refs_exist_def stmt_defs split: if_splits)
  then show ?thesis using SeedDemoData by simp
next
  case (DeletePost i a)
  assume k: "refs_exist s"
  show ?thesis
  proof (cases "delete_post True s i a")
    case (Inl e)
    then show ?thesis using k DeletePost by (simp add: deletePost_def state_after_def)
  next
    case (Inr x)
    obtain n s' where x: "x = (n, s')" by (cases x)
    from delete_post_refs_exist[OF Inr[unfolded x] k] Inr x DeletePost
    show ?thesis by (simp add: deletePost_def state_after_def)
  qed
qed (auto simp: refs_exist_def api_defs stmt_defs state_after_def Let_def
          split: sum.splits if_splits prod.splits)


lemma reachable_keys_unique: "reachable fk s \<Longrightarrow> keys_unique s"
proof (induction rule: reachable.induct)
  case reachable_init
  show ?case by (simp add: keys_unique_def empty_db_def)
next
  case (reachable_step s c)
  then show ?case by (simp add: exec_keys_unique)
qed

lemma reachable_no_self_follow: "reachable fk s \<Longrightarrow> no_self_follow s"
proof (induction rule: reachable.induct)
  case reachable_init
  show ?case by (simp add: no_self_follow_def empty_db_def)
next
  case (reachable_step s c)
  then show ?case by (simp add: exec_no_self_follow)
qed

lemma reachable_ids_shaped: "reachable fk s \<Longrightarrow> ids_shaped s"
proof (induction rule: reachable.induct)
  case reachable_init
  show ?case by (simp add: ids_shaped_def empty_db_def)
next
  case (reachable_step s c)
  then show ?case by (simp add: exec_ids_shaped)
qed

lemma reachable_refs_exist: "reachable True s \<Longrightarrow> refs_exist s"
proof (induction rule: reachable.induct)
  case reachable_init
  show ?case by (simp add: refs_exist_def empty_db_def)
next
  case (reachable_step s c)
  then show ?case by (simp add: exec_refs_exist)
qed

lemma reachable_foldl: "list_all env_ok cs \<Longrightarrow> reachable fk s \<Longrightarrow> reachable fk (foldl (exec fk) s cs)"
  by (induction cs arbitrary: s) (auto intro: reachable_step)

lemma find_snoc_fresh:
  "k \<notin> f ` set xs \<Longrightarrow> f y = k \<Longrightarrow> find (\<lambda>x. f x = k) (xs @ [y]) = Some y"
  by (induction xs) auto

lemma updateProfile_rows:
  "updateProfile s id' u =
     (if upd_display_name u = None \<and> upd_bio u = None \<and> upd_avatar_url u = None then s
      else s\<lparr>profiles := map (\<lambda>r. if pr_id r = id' then
         r\<lparr>pr_display_name := (case upd_display_name u of None \<Rightarrow> pr_display_name r | Some v \<Rightarrow> v),
           pr_bio := (case upd_bio u of None \<Rightarrow> pr_bio r | Some v \<Rightarrow> v),
           pr_avatar_url := (case upd_avatar_url u of None \<Rightarrow> pr_avatar_url r | Some v \<Rightarrow> Some v)\<rparr>
         else r) (profiles s)\<rparr>)"
  by (cases "upd_display_name u"; cases "upd_bio u"; cases "upd_avatar_url u")
     (simp_all add: updateProfile_def update_profile_def)

section \<open>The example run\<close>

lemma example_ids_distinct [simp]:
  "alice_id \<noteq> bob_id" "bob_id \<noteq> alice_id"
  "post1_id \<noteq> post2_id" "post1_id \<noteq> post3_id" "post2_id \<noteq> post3_id"
  "post2_id \<noteq> post1_id" "post3_id \<noteq> post1_id" "post3_id \<noteq> post2_id"
  "alice_id \<noteq> []" "bob_id \<noteq> []"
  by (simp_all add: alice_id_def bob_id_def post1_id_def post2_id_def post3_id_def)

lemma example_ids_shaped [simp]:
  "uuid_shaped alice_id" "uuid_shaped bob_id" "uuid_shaped post1_id" "uuid_shaped post2_id"
  "uuid_shaped post3_id" "uuid_shaped like1_id" "uuid_shaped comment1_id" "uuid_shaped follow1_id"
  by (simp_all add: uuid_shaped_def alice_id_def bob_id_def post1_id_def post2_id_def post3_id_def
        like1_id_def comment1_id_def follow1_id_def)

lemma base_db_run: "foldl (exec fk) empty_db base_cmds = base_db"
  by (simp add: base_cmds_def base_db_def empty_db_def api_defs stmt_defs state_after_def
        getProfileById_def)

lemma social_db_run: "foldl (exec fk) base_db social_cmds = social_db"
  by (simp add: social_cmds_def social_db_def base_db_def api_defs stmt_defs state_after_def
        comments_join_profiles_def)

lemma base_db_reachable: "reachable fk base_db"
  using reachable_foldl[of base_cmds fk empty_db] reachable_init[of fk]
  by (simp add: base_db_run) (simp add: base_cmds_def)

lemma social_db_reachable: "reachable fk social_db"
  using reachable_foldl[of social_cmds fk base_db] base_db_reachable[of fk]
  by (simp add: social_db_run) (simp add: social_cmds_def)


section \<open>Profiles: creation and partial update\<close>

text \<open>
  Claim C10. Whenever \<^verbatim>\<open>createProfile(atxpAccount, username, displayName)\<close> returns, the
  profile it returns has the empty string as \<open>bio\<close> and no \<open>avatar_url\<close>; its \<open>id\<close> is
  the fresh identifier, \<open>atxp_account\<close>, \<open>username\<close> and \<open>display_name\<close> are the
  arguments and \<open>created_at\<close> is the current timestamp. Looking the returned id up right
  away gives the same row, and the row appended to the profiles table is the only change
  to the store.
\<close>

theorem createProfile_defaults_roundtrip:
  assumes "createProfile s uuid now atxpAccount username displayName = Inr (r, s')"
  shows "r = Some \<lparr>pr_id = uuid, pr_atxp_account = atxpAccount, pr_username = username,
                    pr_display_name = displayName, pr_bio = [], pr_avatar_url = None,
                    pr_created_at = now\<rparr>
         \<and> getProfileById s' uuid = r
         \<and> s' = s\<lparr>profiles := profiles s @ [the r]\<rparr>"
  using assms
  by (auto simp: createProfile_def insert_profile_def getProfileById_def find_snoc_fresh
           split: if_splits)

theorem createProfile_defaults_roundtrip_witness:
  "createProfile empty_db alice_id ''2026-01-01 09:00:00'' ''atxp:alice'' ''alice'' ''Alice''
     = Inr (Some \<lparr>pr_id = alice_id, pr_atxp_account = ''atxp:alice'', pr_username = ''alice'',
                  pr_display_name = ''Alice'', pr_bio = [], pr_avatar_url = None,
                  pr_created_at = ''2026-01-01 09:00:00''\<rparr>,
            empty_db\<lparr>profiles := [\<lparr>pr_id = alice_id, pr_atxp_account = ''atxp:alice'',
                  pr_username = ''alice'', pr_display_name = ''Alice'', pr_bio = [],
                  pr_avatar_url = None, pr_created_at = ''2026-01-01 09:00:00''\<rparr>]\<rparr>)
   \<and> getProfileById
         (empty_db\<lparr>profiles := [\<lparr>pr_id = alice_id, pr_atxp_account = ''atxp:alice'',
                  pr_username = ''alice'', pr_display_name = ''Alice'', pr_bio = [],
                  pr_avatar_url = None, pr_created_at = ''2026-01-01 09:00:00''\<rparr>]\<rparr>) alice_id
       = Some \<lparr>pr_id = alice_id, pr_atxp_account = ''atxp:alice'', pr_username = ''alice'',
                  pr_display_name = ''Alice'', pr_bio = [], pr_avatar_url = None,
                  pr_created_at = ''2026-01-01 09:00:00''\<rparr>"
proof -
  have run: "createProfile empty_db alice_id ''2026-01-01 09:00:00'' ''atxp:alice'' ''alice'' ''Alice''
     = Inr (Some \<lparr>pr_id = alice_id, pr_atxp_account = ''atxp:alice'', pr_username = ''alice'',
                  pr_display_name = ''Alice'', pr_bio = [], pr_avatar_url = None,
                  pr_created_at = ''2026-01-01 09:00:00''\<rparr>,
            empty_db\<lparr>profiles := [\<lparr>pr_id = alice_id, pr_atxp_account = ''atxp:alice'',
                  pr_username = ''alice'', pr_display_name = ''Alice'', pr_bio = [],
                  pr_avatar_url = None, pr_created_at = ''2026-01-01 09:00:00''\<rparr>]\<rparr>)"
    by (simp add: createProfile_def insert_profile_def getProfileById_def empty_db_def)
  from createProfile_defaults_roundtrip[OF run] run show ?thesis by (simp add: empty_db_def)
qed

text \<open>
  Claim C8. \<^verbatim>\<open>updateProfile(id, updates)\<close> keeps the number and order of the profile rows.
  In every row \<open>id\<close>, \<open>atxp_account\<close>, \<open>username\<close> and \<open>created_at\<close> stay as they
  were; a row with another id is not changed at all; in the row with the given id each of
  \<open>display_name\<close>, \<open>bio\<close> and \<open>avatar_url\<close> takes the value the record supplies and
  keeps its stored value when the record leaves the field out. No other table changes.
\<close>

theorem updateProfile_frame:
  "length (profiles (updateProfile s id' u)) = length (profiles s)
   \<and> (\<forall>i < length (profiles s).
        pr_id (profiles (updateProfile s id' u) ! i) = pr_id (profiles s ! i)
      \<and> pr_atxp_account (profiles (updateProfile s id' u) ! i) = pr_atxp_account (profiles s ! i)
      \<and> pr_username (profiles (updateProfile s id' u) ! i) = pr_username (profiles s ! i)
      \<and> pr_created_at (profiles (updateProfile s id' u) ! i) = pr_created_at (profiles s ! i)
      \<and> (pr_id (profiles s ! i) \<noteq> id' \<longrightarrow> profiles (updateProfile s id' u) ! i = profiles s ! i)
      \<and> (pr_id (profiles s ! i) = id' \<longrightarrow>
            pr_display_name (profiles (updateProfile s id' u) ! i)
              = (case upd_display_name u of None \<Rightarrow> pr_display_name (profiles s ! i) | Some v \<Rightarrow> v)
          \<and> pr_bio (profiles (updateProfile s id' u) ! i)
              = (case upd_bio u of None \<Rightarrow> pr_bio (profiles s ! i) | Some v \<Rightarrow> v)
          \<and> pr_avatar_url (profiles (updateProfile s id' u) ! i)
              = (case upd_avatar_url u of None \<Rightarrow> pr_avatar_url (profiles s ! i) | Some v \<Rightarrow> Some v)))
   \<and> auth_cookies (updateProfile s id' u) = auth_cookies s
   \<and> posts (updateProfile s id' u) = posts s
   \<and> likes (updateProfile s id' u) = likes s
   \<and> comments (updateProfile s id' u) = comments s
   \<and> follows (updateProfile s id' u) = follows s"
  by (simp add: updateProfile_rows split: option.splits)

theorem updateProfile_frame_witness:
  "(0::nat) < length (profiles base_db) \<and> pr_id (profiles base_db ! 0) = alice_id
   \<and> pr_bio (profiles (updateProfile base_db alice_id
         \<lparr>upd_display_name = None, upd_bio = Some ''lobster fan'', upd_avatar_url = None\<rparr>) ! 0)
       = ''lobster fan''
   \<and> pr_display_name (profiles (updateProfile base_db alice_id
         \<lparr>upd_display_name = None, upd_bio = Some ''lobster fan'', upd_avatar_url = None\<rparr>) ! 0)
       = ''Alice''
   \<and> pr_avatar_url (profiles (updateProfile base_db alice_id
         \<lparr>upd_display_name = None, upd_bio = Some ''lobster fan'', upd_avatar_url = None\<rparr>) ! 0)
       = None
   \<and> pr_username (profiles (updateProfile base_db alice_id
         \<lparr>upd_display_name = None, upd_bio = Some ''lobster fan'', upd_avatar_url = None\<rparr>) ! 0)
       = ''alice''
   \<and> profiles (updateProfile base_db alice_id
         \<lparr>upd_display_name = None, upd_bio = Some ''lobster fan'', upd_avatar_url = None\<rparr>) ! 1
       = profiles base_db ! 1"
proof -
  have h: "(0::nat) < length (profiles base_db)" "(1::nat) < length (profiles base_db)"
    "pr_id (profiles base_db ! 0) = alice_id" "pr_id (profiles base_db ! 1) \<noteq> alice_id"
    "pr_display_name (profiles base_db ! 0) = ''Alice''"
    "pr_avatar_url (profiles base_db ! 0) = None"
    "pr_username (profiles base_db ! 0) = ''alice''"
    by (simp_all add: base_db_def)
  from updateProfile_frame[of base_db alice_id
      "\<lparr>upd_display_name = None, upd_bio = Some ''lobster fan'', upd_avatar_url = None\<rparr>"] h
  show ?thesis by simp
qed


section \<open>Constraint violations\<close>

text \<open>
  Claim C7, as stated, for \<^verbatim>\<open>createProfile\<close>: the claim says that a duplicate username is
  caught at the insert and turned into a result. In \<open>base_db\<close> the username \<open>alice\<close> is
  taken, and \<^verbatim>\<open>createProfile\<close> with that username and an unused account throws the
  constraint error of the statement.
\<close>

theorem createProfile_duplicate_counterexample:
  "''alice'' \<in> pr_username ` set (profiles base_db)
   \<and> createProfile base_db like1_id ''2026-01-03 00:00:00'' ''atxp:carol'' ''alice'' ''Carol''
       = Inl SQLITE_CONSTRAINT_UNIQUE"
  by (simp add: createProfile_def insert_profile_def base_db_def alice_id_def bob_id_def like1_id_def)

text \<open>
  Claim C7, amended. A duplicate (post, user) pair in \<^verbatim>\<open>likePost\<close>, a duplicate (follower,
  following) pair in \<^verbatim>\<open>followUser\<close> and a self-follow give the result \<^verbatim>\<open>false\<close> with the
  store unchanged, and neither function ever throws. \<^verbatim>\<open>createProfile\<close> has no handler
  around its insert: with a username or an account that is already stored it throws the
  constraint error of the statement.
\<close>

theorem unique_violations_as_results:
  "((postId, userId) \<in> (\<lambda>l. (lk_post_id l, lk_user_id l)) ` set (likes s)
      \<longrightarrow> likePost fk s uuid now postId userId = Inr (False, s))
   \<and> ((followerId, followingId) \<in> (\<lambda>f. (fl_follower_id f, fl_following_id f)) ` set (follows s)
      \<longrightarrow> followUser fk s uuid now followerId followingId = Inr (False, s))
   \<and> followUser fk s uuid now userId userId = Inr (False, s)
   \<and> \<not> isl (likePost fk s uuid now postId userId)
   \<and> \<not> isl (followUser fk s uuid now followerId followingId)
   \<and> (username \<in> pr_username ` set (profiles s) \<or> atxpAccount \<in> pr_atxp_account ` set (profiles s)
      \<longrightarrow> createProfile s uuid now atxpAccount username displayName = Inl SQLITE_CONSTRAINT_UNIQUE
          \<or> createProfile s uuid now atxpAccount username displayName = Inl SQLITE_CONSTRAINT_PRIMARYKEY)"
  by (auto simp: likePost_def followUser_def createProfile_def insert_like_def insert_follow_def
        insert_profile_def split: sum.splits)

theorem unique_violations_as_results_witness:
  "(post1_id, alice_id) \<in> (\<lambda>l. (lk_post_id l, lk_user_id l)) ` set (likes social_db)
   \<and> likePost True social_db post2_id ''2026-01-03 00:00:00'' post1_id alice_id = Inr (False, social_db)
   \<and> (alice_id, bob_id) \<in> (\<lambda>f. (fl_follower_id f, fl_following_id f)) ` set (follows social_db)
   \<and> followUser True social_db post2_id ''2026-01-03 00:00:00'' alice_id bob_id = Inr (False, social_db)
   \<and> ''bob'' \<in> pr_username ` set (profiles social_db)
   \<and> isl (createProfile social_db post2_id ''2026-01-03 00:00:00'' ''atxp:carol'' ''bob'' ''Carol'')"
proof -
  have h: "(post1_id, alice_id) \<in> (\<lambda>l. (lk_post_id l, lk_user_id l)) ` set (likes social_db)"
    "(alice_id, bob_id) \<in> (\<lambda>f. (fl_follower_id f, fl_following_id f)) ` set (follows social_db)"
    "''bob'' \<in> pr_username ` set (profiles social_db)"
    by (simp_all add: social_db_def base_db_def)
  from unique_violations_as_results[of post1_id alice_id social_db True post2_id
      "''2026-01-03 00:00:00''" alice_id bob_id "''bob''" "''atxp:carol''" "''Carol''"] h
  show ?thesis by auto
qed

section \<open>Follows\<close>

text \<open>
  Claim C3. \<^verbatim>\<open>followUser(u, u)\<close> returns \<^verbatim>\<open>false\<close> and leaves the store as it is, in every
  state; so does \<^verbatim>\<open>followUser(a, b)\<close> when the edge from \<open>a\<close> to \<open>b\<close> is already
  stored. No reachable state holds a follow row whose follower is its followee. When
  \<^verbatim>\<open>followUser(a, b)\<close> returns \<^verbatim>\<open>true\<close>, \<open>a\<close> and \<open>b\<close> differ, the edge was not stored
  before, and the store afterwards is the store before with exactly that edge appended.
\<close>

theorem followUser_rejects_self_and_duplicate:
  "followUser fk s uuid now u u = Inr (False, s)
   \<and> ((a, b) \<in> (\<lambda>f. (fl_follower_id f, fl_following_id f)) ` set (follows s)
      \<longrightarrow> followUser fk s uuid now a b = Inr (False, s))
   \<and> (reachable fk s \<longrightarrow> (\<forall>f \<in> set (follows s). fl_follower_id f \<noteq> fl_following_id f))
   \<and> (followUser fk s uuid now a b = Inr (True, s') \<longrightarrow>
         a \<noteq> b
       \<and> (a, b) \<notin> (\<lambda>f. (fl_follower_id f, fl_following_id f)) ` set (follows s)
       \<and> s' = s\<lparr>follows := follows s @ [\<lparr>fl_id = uuid, fl_follower_id = a, fl_following_id = b,
                                          fl_created_at = now\<rparr>]\<rparr>)"
proof -
  have "reachable fk s \<longrightarrow> (\<forall>f \<in> set (follows s). fl_follower_id f \<noteq> fl_following_id f)"
    using reachable_no_self_follow[of fk s] by (simp add: no_self_follow_def)
  then show ?thesis
    by (auto simp: followUser_def insert_follow_def split: sum.splits if_splits)
qed

theorem followUser_rejects_self_and_duplicate_witness:
  "followUser True social_db post2_id ''2026-01-03 00:00:00'' alice_id alice_id = Inr (False, social_db)
   \<and> (alice_id, bob_id) \<in> (\<lambda>f. (fl_follower_id f, fl_following_id f)) ` set (follows social_db)
   \<and> followUser True social_db post2_id ''2026-01-03 00:00:00'' alice_id bob_id = Inr (False, social_db)
   \<and> reachable True social_db
   \<and> list_all (\<lambda>f. fl_follower_id f \<noteq> fl_following_id f) (follows social_db)
   \<and> followUser True base_db follow1_id ''2026-01-02 09:01:00'' alice_id bob_id
       = Inr (True, base_db\<lparr>follows := [\<lparr>fl_id = follow1_id, fl_follower_id = alice_id,
                            fl_following_id = bob_id, fl_created_at = ''2026-01-02 09:01:00''\<rparr>]\<rparr>)
   \<and> (alice_id, bob_id) \<notin> (\<lambda>f. (fl_follower_id f, fl_following_id f)) ` set (follows base_db)"
proof -
  have h: "(alice_id, bob_id) \<in> (\<lambda>f. (fl_follower_id f, fl_following_id f)) ` set (follows social_db)"
    by (simp add: social_db_def base_db_def)
  have run: "followUser True base_db follow1_id ''2026-01-02 09:01:00'' alice_id bob_id
       = Inr (True, base_db\<lparr>follows := [\<lparr>fl_id = follow1_id, fl_follower_id = alice_id,
                            fl_following_id = bob_id, fl_created_at = ''2026-01-02 09:01:00''\<rparr>]\<rparr>)"
    by (simp add: followUser_def insert_follow_def base_db_def)
  from followUser_rejects_self_and_duplicate[of True social_db post2_id "''2026-01-03 00:00:00''"
      alice_id alice_id bob_id] h social_db_reachable[of True]
    followUser_rejects_self_and_duplicate[of True base_db follow1_id "''2026-01-02 09:01:00''"
      alice_id alice_id bob_id] run
  show ?thesis by (simp add: list_all_iff)
qed

section \<open>Referential integrity at write time\<close>

text \<open>
  Claim C6. With the foreign keys of the schema enforced, \<^verbatim>\<open>createPost\<close> throws when the
  author is not a stored profile, \<^verbatim>\<open>likePost\<close> returns \<^verbatim>\<open>false\<close> and stores nothing when
  the post or the user is not stored, \<^verbatim>\<open>addComment\<close> throws when the post or the author is
  not stored, and \<^verbatim>\<open>followUser\<close> returns \<^verbatim>\<open>false\<close> and stores nothing when either
  profile is not stored. Hence in every reachable state every post, like, comment and follow
  row references stored identifiers.
\<close>

theorem foreign_keys_checked_at_write:
  "(authorId \<notin> pr_id ` set (profiles s)
      \<longrightarrow> isl (createPost True s uuid now authorId imageUrl caption))
   \<and> (postId \<notin> po_id ` set (posts s) \<or> userId \<notin> pr_id ` set (profiles s)
      \<longrightarrow> likePost True s uuid now postId userId = Inr (False, s))
   \<and> (postId \<notin> po_id ` set (posts s) \<or> authorId \<notin> pr_id ` set (profiles s)
      \<longrightarrow> isl (addComment True s uuid now postId authorId content))
   \<and> (followerId \<notin> pr_id ` set (profiles s) \<or> followingId \<notin> pr_id ` set (profiles s)
      \<longrightarrow> followUser True s uuid now followerId followingId = Inr (False, s))
   \<and> (reachable True s \<longrightarrow> refs_exist s)"
  using reachable_refs_exist[of s]
  by (auto simp: createPost_def likePost_def addComment_def followUser_def insert_post_def
        insert_like_def insert_comment_def insert_follow_def)

theorem foreign_keys_checked_at_write_witness:
  "like1_id \<notin> pr_id ` set (profiles base_db) \<and> like1_id \<notin> po_id ` set (posts base_db)
   \<and> isl (createPost True base_db comment1_id ''2026-01-03 00:00:00'' like1_id ''/uploads/9.webp'' ''x'')
   \<and> likePost True base_db comment1_id ''2026-01-03 00:00:00'' like1_id alice_id = Inr (False, base_db)
   \<and> isl (addComment True base_db comment1_id ''2026-01-03 00:00:00'' like1_id like1_id ''x'')
   \<and> followUser True base_db comment1_id ''2026-01-03 00:00:00'' alice_id like1_id = Inr (False, base_db)
   \<and> reachable True social_db \<and> refs_exist social_db"
proof -
  have h: "like1_id \<notin> pr_id ` set (profiles base_db)" "like1_id \<notin> po_id ` set (posts base_db)"
    by (simp_all add: base_db_def alice_id_def bob_id_def like1_id_def post1_id_def post2_id_def
          post3_id_def)
  from foreign_keys_checked_at_write[where s = base_db and authorId = like1_id
      and uuid = comment1_id and now = "''2026-01-03 00:00:00''" and imageUrl = "''/uploads/9.webp''"
      and caption = "''x''" and postId = like1_id and userId = alice_id and content = "''x''"
      and followerId = alice_id and followingId = like1_id] h
    foreign_keys_checked_at_write[where s = social_db and authorId = like1_id
      and uuid = comment1_id and now = "''2026-01-03 00:00:00''" and imageUrl = "''/uploads/9.webp''"
      and caption = "''x''" and postId = like1_id and userId = alice_id and content = "''x''"
      and followerId = alice_id and followingId = like1_id]
    social_db_reachable[of True]
  show ?thesis by simp
qed


section \<open>Deleting a post\<close>

lemma getPostById_None_if_no_row:
  "i \<notin> po_id ` set (posts s) \<Longrightarrow> getPostById s i viewer = None"
proof -
  assume a: "i \<notin> po_id ` set (posts s)"
  have "filter (\<lambda>(p, pr). po_id p = i) (posts_join_profiles s) = []"
    using a by (auto simp: posts_join_profiles_def filter_empty_conv)
  then show ?thesis by (simp add: getPostById_def)
qed

lemma delete_post_no_match:
  assumes "\<forall>q \<in> set (posts s). \<not> (po_id q = i \<and> po_author_id q = a)"
  shows "deletePost fk s i a = Inr (False, s)"
proof -
  from assms have 1: "filter (\<lambda>q. po_id q = i \<and> po_author_id q = a) (posts s) = []"
    by (simp add: filter_empty_conv)
  from assms have 2: "filter (\<lambda>q. \<not> (po_id q = i \<and> po_author_id q = a)) (posts s) = posts s"
    by (simp add: filter_id_conv)
  show ?thesis unfolding deletePost_def delete_post_def Let_def 1 2 by simp
qed

text \<open>
  Claim C2 says that \<^verbatim>\<open>deletePost(P1, A)\<close> by the owner returns \<^verbatim>\<open>true\<close> and that the post
  is gone afterwards. In the reachable state \<open>social_db\<close> the first post belongs to bob
  and carries a like and a comment. The likes and comments tables reference
  \<^verbatim>\<open>posts(id)\<close> with no \<^verbatim>\<open>ON DELETE\<close> action, so with the schema's foreign keys enforced
  the owner's \<^verbatim>\<open>deletePost\<close> throws the constraint error of the statement, and the post stays.
\<close>

theorem deletePost_of_liked_post_throws:
  "reachable True social_db
   \<and> \<lparr>po_id = post1_id, po_author_id = bob_id, po_image_url = ''/uploads/1.webp'',
       po_caption = ''hi'', po_created_at = ''2026-01-01 10:00:00''\<rparr> \<in> set (posts social_db)
   \<and> deletePost True social_db post1_id bob_id = Inl SQLITE_CONSTRAINT_FOREIGNKEY"
  using social_db_reachable[of True]
  by (simp add: deletePost_def delete_post_def social_db_def base_db_def)

text \<open>
  The rest of claim C2 holds. In every reachable state, for a stored post \<open>p\<close>:
  \<^verbatim>\<open>deletePost\<close> of its id by anyone but its author returns \<^verbatim>\<open>false\<close> and leaves the store
  unchanged; \<^verbatim>\<open>deletePost\<close> of an id that no post carries returns \<^verbatim>\<open>false\<close> and leaves the
  store unchanged; and when no like and no comment references \<open>p\<close> (or foreign keys are
  not enforced), \<^verbatim>\<open>deletePost\<close> by the author returns \<^verbatim>\<open>true\<close>, removes exactly that post,
  and \<^verbatim>\<open>getPostById\<close> of its id then returns nothing, for every viewer.
\<close>

theorem deletePost_ownership_gate:
  assumes "reachable fk s" and "p \<in> set (posts s)"
  shows "(B \<noteq> po_author_id p \<longrightarrow> deletePost fk s (po_id p) B = Inr (False, s))
       \<and> (i \<notin> po_id ` set (posts s) \<longrightarrow> deletePost fk s i B = Inr (False, s))
       \<and> ((fk \<longrightarrow> po_id p \<notin> lk_post_id ` set (likes s)
                  \<and> po_id p \<notin> cm_post_id ` set (comments s)) \<longrightarrow>
            deletePost fk s (po_id p) (po_author_id p)
              = Inr (True, s\<lparr>posts := filter (\<lambda>q. po_id q \<noteq> po_id p) (posts s)\<rparr>)
          \<and> getPostById (s\<lparr>posts := filter (\<lambda>q. po_id q \<noteq> po_id p) (posts s)\<rparr>) (po_id p) viewer
              = None)"
proof -
  from assms(1) have "distinct (map po_id (posts s))"
    using reachable_keys_unique by (auto simp: keys_unique_def)
  then have inj: "\<forall>q \<in> set (posts s). po_id q = po_id p \<longrightarrow> q = p"
    using assms(2) by (auto simp: distinct_map inj_on_def)
  have a: "B \<noteq> po_author_id p \<longrightarrow> deletePost fk s (po_id p) B = Inr (False, s)"
    using inj by (auto intro!: delete_post_no_match)
  have b: "i \<notin> po_id ` set (posts s) \<longrightarrow> deletePost fk s i B = Inr (False, s)"
    by (auto intro!: delete_post_no_match)
  let ?kept = "filter (\<lambda>q. po_id q \<noteq> po_id p) (posts s)"
  have gone: "filter (\<lambda>q. po_id q = po_id p \<and> po_author_id q = po_author_id p) (posts s)
                = filter (\<lambda>q. po_id q = po_id p) (posts s)"
    using inj by (auto intro: filter_cong)
  have kept: "filter (\<lambda>q. \<not> (po_id q = po_id p \<and> po_author_id q = po_author_id p)) (posts s) = ?kept"
    using inj by (auto intro: filter_cong)
  have len: "length (filter (\<lambda>q. po_id q = po_id p) (posts s)) > 0"
    using assms(2) by (simp add: filter_empty_conv) blast
  have ids: "po_id ` set (filter (\<lambda>q. po_id q = po_id p) (posts s)) = {po_id p}"
    using assms(2) by auto
  have c1: "(fk \<longrightarrow> po_id p \<notin> lk_post_id ` set (likes s)
                  \<and> po_id p \<notin> cm_post_id ` set (comments s)) \<longrightarrow>
            deletePost fk s (po_id p) (po_author_id p) = Inr (True, s\<lparr>posts := ?kept\<rparr>)"
  proof
    assume u: "fk \<longrightarrow> po_id p \<notin> lk_post_id ` set (likes s)
                  \<and> po_id p \<notin> cm_post_id ` set (comments s)"
    then have "\<not> (fk \<and> ((\<exists>l \<in> set (likes s). lk_post_id l \<in> {po_id p}
                                 \<and> lk_post_id l \<notin> po_id ` set ?kept)
                        \<or> (\<exists>c \<in> set (comments s). cm_post_id c \<in> {po_id p}
                                 \<and> cm_post_id c \<notin> po_id ` set ?kept)))"
      by (auto simp: image_iff)
    then show "deletePost fk s (po_id p) (po_author_id p) = Inr (True, s\<lparr>posts := ?kept\<rparr>)"
      unfolding deletePost_def delete_post_def Let_def gone kept ids using len by simp
  qed
  have c2: "getPostById (s\<lparr>posts := ?kept\<rparr>) (po_id p) viewer = None"
    by (rule getPostById_None_if_no_row) auto
  from a b c1 c2 show ?thesis by blast
qed

theorem deletePost_ownership_gate_witness:
  "reachable True base_db
   \<and> deletePost True base_db post1_id alice_id = Inr (False, base_db)
   \<and> deletePost True base_db like1_id bob_id = Inr (False, base_db)
   \<and> deletePost True base_db post1_id bob_id
       = Inr (True, base_db\<lparr>posts := filter (\<lambda>q. po_id q \<noteq> post1_id) (posts base_db)\<rparr>)
   \<and> getPostById (base_db\<lparr>posts := filter (\<lambda>q. po_id q \<noteq> post1_id) (posts base_db)\<rparr>) post1_id None
       = None
   \<and> getPostById base_db post1_id None \<noteq> None"
proof -
  let ?p = "\<lparr>po_id = post1_id, po_author_id = bob_id, po_image_url = ''/uploads/1.webp'',
       po_caption = ''hi'', po_created_at = ''2026-01-01 10:00:00''\<rparr>"
  have h: "?p \<in> set (posts base_db)" "alice_id \<noteq> po_author_id ?p"
    "like1_id \<notin> po_id ` set (posts base_db)"
    "po_id ?p \<notin> lk_post_id ` set (likes base_db)" "po_id ?p \<notin> cm_post_id ` set (comments base_db)"
    by (simp_all add: base_db_def like1_id_def post1_id_def post2_id_def post3_id_def)
  have g: "getPostById base_db post1_id None \<noteq> None"
    by (simp add: getPostById_def posts_join_profiles_def base_db_def)
  from deletePost_ownership_gate[OF base_db_reachable[of True] h(1), of alice_id like1_id None]
    deletePost_ownership_gate[OF base_db_reachable[of True] h(1), of bob_id like1_id None]
    h g base_db_reachable[of True]
  show ?thesis by simp
qed

text \<open>
  What a successful \<^verbatim>\<open>deletePost\<close> changes: the posts table loses the rows with that id
  and author, and nothing else is written. No like and no comment is removed by it.
\<close>

lemma deletePost_changes_only_posts:
  assumes "deletePost fk s p authorId = Inr (True, s')"
  shows "likes s' = likes s \<and> comments s' = comments s
       \<and> profiles s' = profiles s \<and> follows s' = follows s \<and> auth_cookies s' = auth_cookies s
       \<and> posts s' = filter (\<lambda>q. \<not> (po_id q = p \<and> po_author_id q = authorId)) (posts s)
       \<and> getPostComments s' p limit offset = getPostComments s p limit offset"
proof -
  from assms have "s' = s\<lparr>posts := filter (\<lambda>q. \<not> (po_id q = p \<and> po_author_id q = authorId)) (posts s)\<rparr>"
    by (auto simp: deletePost_def delete_post_def Let_def split: if_splits)
  then show ?thesis by (simp add: getPostComments_def comments_join_profiles_def)
qed

text \<open>
  With the schema's foreign keys enforced, the call returns \<^verbatim>\<open>true\<close> only for a post that
  no like and no comment references: there is never a like or a comment left behind.
\<close>

lemma deletePost_success_unreferenced:
  assumes r: "reachable True s" and d: "deletePost True s p authorId = Inr (True, s')"
  shows "p \<notin> lk_post_id ` set (likes s) \<and> p \<notin> cm_post_id ` set (comments s)
       \<and> p \<notin> lk_post_id ` set (likes s') \<and> p \<notin> cm_post_id ` set (comments s')
       \<and> p \<notin> po_id ` set (posts s')"
proof -
  let ?P = "\<lambda>q. po_id q = p \<and> po_author_id q = authorId"
  let ?gone = "filter ?P (posts s)"
  let ?kept = "filter (\<lambda>q. \<not> ?P q) (posts s)"
  from d obtain n where dp: "delete_post True s p authorId = Inr (n, s')" and n: "n > 0"
    by (auto simp: deletePost_def split: sum.splits prod.splits)
  from dp have s': "s' = s\<lparr>posts := ?kept\<rparr>"
    and len: "n = length ?gone"
    and lk: "\<forall>l \<in> set (likes s). \<not> (lk_post_id l \<in> po_id ` set ?gone
                \<and> lk_post_id l \<notin> po_id ` set ?kept)"
    and cm: "\<forall>c \<in> set (comments s). \<not> (cm_post_id c \<in> po_id ` set ?gone
                \<and> cm_post_id c \<notin> po_id ` set ?kept)"
    by (simp_all add: delete_post_def Let_def split: if_splits)
  from len n have "?gone \<noteq> []" by auto
  then obtain q where q: "q \<in> set (posts s)" "po_id q = p" "po_author_id q = authorId"
    unfolding filter_empty_conv by blast
  then have "q \<in> set ?gone" by simp
  then have gone: "p \<in> po_id ` set ?gone" by (rule rev_image_eqI) (simp add: q(2))
  from r have "keys_unique s" by (rule reachable_keys_unique)
  then have inj: "inj_on po_id (set (posts s))" by (simp add: keys_unique_def distinct_map)
  have kept: "p \<notin> po_id ` set ?kept"
  proof
    assume "p \<in> po_id ` set ?kept"
    then obtain x where x: "x \<in> set ?kept" "p = po_id x" by (rule imageE)
    then have xs: "x \<in> set (posts s)" and np: "\<not> ?P x" by simp_all
    from inj xs q(1) x(2) q(2) have "x = q" by (simp add: inj_on_def)
    with np q show False by simp
  qed
  from lk gone kept have 1: "p \<notin> lk_post_id ` set (likes s)" by blast
  from cm gone kept have 2: "p \<notin> cm_post_id ` set (comments s)" by blast
  from 1 2 kept show ?thesis unfolding s' by simp
qed



section \<open>The other foreign-key setting\<close>

text \<open>
  For comparison, a connection with \<^verbatim>\<open>foreign_keys\<close> switched off: \<^verbatim>\<open>createPost\<close> stores a post
  whose author is no profile, and the owner's \<^verbatim>\<open>deletePost\<close> of the liked and commented
  post of \<open>social_db\<close> returns \<^verbatim>\<open>true\<close> and leaves the like and the comment behind.
\<close>

lemma createPost_without_foreign_keys:
  "like1_id \<notin> pr_id ` set (profiles base_db)
   \<and> createPost False base_db comment1_id ''2026-01-03 00:00:00'' like1_id ''/uploads/9.webp'' ''x''
       = Inr (Some \<lparr>po_id = comment1_id, po_author_id = like1_id, po_image_url = ''/uploads/9.webp'',
                    po_caption = ''x'', po_created_at = ''2026-01-03 00:00:00''\<rparr>,
              base_db\<lparr>posts := posts base_db
                 @ [\<lparr>po_id = comment1_id, po_author_id = like1_id, po_image_url = ''/uploads/9.webp'',
                     po_caption = ''x'', po_created_at = ''2026-01-03 00:00:00''\<rparr>]\<rparr>)"
  by (simp add: createPost_def insert_post_def base_db_def alice_id_def bob_id_def like1_id_def
        comment1_id_def post1_id_def post2_id_def post3_id_def)

lemma deletePost_without_foreign_keys:
  "deletePost False social_db post1_id bob_id
     = Inr (True, social_db\<lparr>posts := filter (\<lambda>q. po_id q \<noteq> post1_id) (posts social_db)\<rparr>)
   \<and> lk_post_id ` set (likes social_db) = {post1_id}
   \<and> cm_post_id ` set (comments social_db) = {post1_id}"
  by (simp add: deletePost_def delete_post_def social_db_def base_db_def)

section \<open>Ordering, paging and the join with profiles\<close>

text \<open>
  Text written by \<^verbatim>\<open>CURRENT_TIMESTAMP\<close> sorts as the clock readings do, so for rows stamped by
  the schema's default the order of \<open>created_at\<close> is the order of creation, to the second.
\<close>

lemma current_timestamp_example:
  "current_timestamp \<lparr>clk_year = 2026, clk_month = 1, clk_day = 2, clk_hour = 8,
                       clk_minute = 30, clk_second = 0, clk_millis = 417\<rparr> = ''2026-01-02 08:30:00''"
  by code_simp

lemma toISOString_example:
  "toISOString \<lparr>clk_year = 2026, clk_month = 1, clk_day = 2, clk_hour = 8,
                 clk_minute = 30, clk_second = 0, clk_millis = 417\<rparr> = ''2026-01-02T08:30:00.417Z''"
  by code_simp

lemma lex_div_mod:
  fixes m n k :: nat
  shows "(m div k < n div k \<or> m div k = n div k \<and> m mod k < n mod k) = (m < n)"
proof
  assume l: "m div k < n div k \<or> m div k = n div k \<and> m mod k < n mod k"
  show "m < n"
  proof (rule ccontr)
    assume "\<not> m < n"
    then have nm: "n \<le> m" by simp
    then have "n div k \<le> m div k" by (rule div_le_mono)
    with l have e: "m div k = n div k" "m mod k < n mod k" by auto
    from e(2) have "k * (n div k) + m mod k < k * (n div k) + n mod k"
      by (rule add_strict_left_mono)
    then have "k * (m div k) + m mod k < k * (n div k) + n mod k"
      by (simp only: e(1))
    then have "m < n" by (simp only: mult_div_mod_eq)
    with nm show False by simp
  qed
next
  assume mn: "m < n"
  then have d: "m div k \<le> n div k" by (simp add: div_le_mono)
  show "m div k < n div k \<or> m div k = n div k \<and> m mod k < n mod k"
  proof (cases "m div k = n div k")
    case True
    from mn have "k * (m div k) + m mod k < k * (n div k) + n mod k"
      by (simp only: mult_div_mod_eq)
    then have "k * (n div k) + m mod k < k * (n div k) + n mod k"
      by (simp only: True)
    then have "m mod k < n mod k" by (simp only: add_less_cancel_left)
    with True show ?thesis by simp
  next
    case False
    with d show ?thesis by simp
  qed
qed

lemma eq_div_mod:
  fixes m n k :: nat
  shows "(m div k = n div k \<and> m mod k = n mod k) = (m = n)"
  by (metis div_mult_mod_eq)

lemma digit_less: "a < 10 \<Longrightarrow> b < 10 \<Longrightarrow> (digit a < digit b) = (a < b)"
  by (simp add: digit_def less_char_def)

lemma digit_eq: "a < 10 \<Longrightarrow> b < 10 \<Longrightarrow> (digit a = digit b) = (a = b)"
proof -
  assume a: "a < 10" and b: "b < 10"
  have "of_char (digit a) = a + 48" "of_char (digit b) = b + 48"
    using a b by (simp_all add: digit_def)
  then show ?thesis by (metis add_right_cancel)
qed

lemma pad2_less: "m < 100 \<Longrightarrow> n < 100 \<Longrightarrow> (pad2 m < pad2 n) = (m < n)"
proof -
  assume m: "m < 100" and n: "n < 100"
  then have d: "m div 10 mod 10 = m div 10" "n div 10 mod 10 = n div 10" by simp_all
  have b: "m div 10 < 10" "n div 10 < 10" "m mod 10 < 10" "n mod 10 < 10" using m n by simp_all
  have "(pad2 m < pad2 n) = (m div 10 < n div 10 \<or> m div 10 = n div 10 \<and> m mod 10 < n mod 10)"
    by (simp add: pad2_def d digit_less digit_eq b)
  also have "\<dots> = (m < n)" by (rule lex_div_mod)
  finally show ?thesis .
qed

lemma pad2_eq: "m < 100 \<Longrightarrow> n < 100 \<Longrightarrow> (pad2 m = pad2 n) = (m = n)"
proof -
  assume m: "m < 100" and n: "n < 100"
  then have d: "m div 10 mod 10 = m div 10" "n div 10 mod 10 = n div 10" by simp_all
  have b: "m div 10 < 10" "n div 10 < 10" "m mod 10 < 10" "n mod 10 < 10" using m n by simp_all
  have "(pad2 m = pad2 n) = (m div 10 = n div 10 \<and> m mod 10 = n mod 10)"
    by (simp add: pad2_def d digit_eq b)
  also have "\<dots> = (m = n)" by (rule eq_div_mod)
  finally show ?thesis .
qed

lemma length_pad2 [simp]: "length (pad2 n) = 2"
  by (simp add: pad2_def)

lemma length_pad4 [simp]: "length (pad4 n) = 4"
  by (simp add: pad4_def)

lemma append_less_same_length:
  "length a = length b \<Longrightarrow> (a @ x < b @ y) = (a < b \<or> a = b \<and> x < y)"
  by (induction a b rule: list_induct2) auto

lemma pad4_less: "m < 10000 \<Longrightarrow> n < 10000 \<Longrightarrow> (pad4 m < pad4 n) = (m < n)"
proof -
  assume m: "m < 10000" and n: "n < 10000"
  have b: "m div 100 < 100" "n div 100 < 100" "m mod 100 < 100" "n mod 100 < 100"
    using m n by simp_all
  have "(pad4 m < pad4 n)
          = (m div 100 < n div 100 \<or> m div 100 = n div 100 \<and> m mod 100 < n mod 100)"
    by (simp add: pad4_def append_less_same_length pad2_less pad2_eq b)
  also have "\<dots> = (m < n)" by (rule lex_div_mod)
  finally show ?thesis .
qed

lemma pad4_eq: "m < 10000 \<Longrightarrow> n < 10000 \<Longrightarrow> (pad4 m = pad4 n) = (m = n)"
proof -
  assume m: "m < 10000" and n: "n < 10000"
  have b: "m div 100 < 100" "n div 100 < 100" "m mod 100 < 100" "n mod 100 < 100"
    using m n by simp_all
  have "(pad4 m = pad4 n) = (m div 100 = n div 100 \<and> m mod 100 = n mod 100)"
    by (simp add: pad4_def pad2_eq b)
  also have "\<dots> = (m = n)" by (rule eq_div_mod)
  finally show ?thesis .
qed

lemma current_timestamp_mono:
  assumes "clock_ok a" and "clock_ok b"
  shows "(current_timestamp a < current_timestamp b) = earlier a b"
  using assms
  by (simp add: current_timestamp_def clock_ok_def earlier_def append_less_same_length
        pad4_less pad4_eq pad2_less pad2_eq)

text \<open>
  The two formats do not sort together: text written by \<^verbatim>\<open>toISOString\<close> sorts after every
  \<^verbatim>\<open>CURRENT_TIMESTAMP\<close> text of the same date, whatever the time of day. The rows of
  \<^verbatim>\<open>seedDemoData\<close> are the only ones stamped that way.
\<close>

lemma toISOString_after_current_timestamp:
  assumes "clk_year a = clk_year b" and "clk_month a = clk_month b" and "clk_day a = clk_day b"
  shows "current_timestamp a < toISOString b"
  using assms
  by (simp add: current_timestamp_def toISOString_def append_less_same_length)


lemma set_order_by_desc [simp]: "set (order_by_desc k xs) = set xs"
  by (simp add: order_by_desc_def)

lemma distinct_map_sort_key: "distinct (map k (sort_key k xs)) = distinct (map k xs)"
  by (induction xs) (simp_all add: distinct_insort_key)

lemma order_by_desc_strict:
  assumes "distinct (map k xs)"
  shows "sorted_wrt (\<lambda>a b. k b < k a) (order_by_desc k xs)"
proof -
  from assms have "distinct (map k (sort_key k (rev xs)))"
    by (simp add: distinct_map_sort_key rev_map[symmetric])
  then have "sorted_wrt (<) (map k (sort_key k (rev xs)))"
    by (simp add: strict_sorted_iff)
  then show ?thesis
    by (simp add: order_by_desc_def sorted_wrt_rev sorted_wrt_map)
qed

lemma sorted_wrt_sql_limit: "sorted_wrt R xs \<Longrightarrow> sorted_wrt R (sql_limit l off xs)"
  by (simp add: sql_limit_def Let_def sorted_wrt_take sorted_wrt_drop)

lemma map_sql_limit: "map f (sql_limit l off xs) = sql_limit l off (map f xs)"
  by (simp add: sql_limit_def Let_def take_map drop_map)

lemma set_sql_limit: "set (sql_limit l off xs) \<subseteq> set xs"
  by (auto simp: sql_limit_def Let_def dest: in_set_takeD in_set_dropD)

lemma sql_limit_all [simp]: "sql_limit (- 1) 0 xs = xs"
  by (simp add: sql_limit_def)

lemma length_filter_key:
  "distinct (map f xs) \<Longrightarrow> filter (\<lambda>x. k = f x) xs = [] \<or> (\<exists>y. filter (\<lambda>x. k = f x) xs = [y])"
  by (induction xs) (auto simp: filter_empty_conv)

lemma posts_join_profiles_fst:
  assumes "distinct (map pr_id (profiles s))"
  shows "map fst (posts_join_profiles s)
           = filter (\<lambda>p. po_author_id p \<in> pr_id ` set (profiles s)) (posts s)"
proof -
  have one: "map fst (map (Pair p) (filter (\<lambda>pr. po_author_id p = pr_id pr) (profiles s)))
               = (if po_author_id p \<in> pr_id ` set (profiles s) then [p] else [])" for p
  proof -
    from length_filter_key[OF assms, of "po_author_id p"]
    show ?thesis
    proof
      assume e: "filter (\<lambda>pr. po_author_id p = pr_id pr) (profiles s) = []"
      then have "po_author_id p \<notin> pr_id ` set (profiles s)"
        by (auto simp: filter_empty_conv)
      with e show ?thesis by simp
    next
      assume "\<exists>y. filter (\<lambda>pr. po_author_id p = pr_id pr) (profiles s) = [y]"
      then obtain y where y: "filter (\<lambda>pr. po_author_id p = pr_id pr) (profiles s) = [y]" ..
      then have "y \<in> set (filter (\<lambda>pr. po_author_id p = pr_id pr) (profiles s))" by simp
      then have "po_author_id p \<in> pr_id ` set (profiles s)" by auto
      with y show ?thesis by simp
    qed
  qed
  have "map fst (concat (map (\<lambda>p. map (Pair p) (filter (\<lambda>pr. po_author_id p = pr_id pr) (profiles s))) ps))
          = filter (\<lambda>p. po_author_id p \<in> pr_id ` set (profiles s)) ps" for ps
    by (induction ps) (simp_all add: one del: map_map)
  then show ?thesis by (simp add: posts_join_profiles_def)
qed

lemma join_keys_distinct:
  assumes "distinct (map pr_id (profiles s))" and "distinct (map po_created_at (posts s))"
  shows "distinct (map (\<lambda>(p, pr). po_created_at p) (filter P (posts_join_profiles s)))"
proof -
  have "map (\<lambda>(p, pr). po_created_at p) (posts_join_profiles s)
          = map po_created_at (map fst (posts_join_profiles s))"
    by (simp add: case_prod_beta comp_def)
  with assms have "distinct (map (\<lambda>(p, pr). po_created_at p) (posts_join_profiles s))"
    by (simp add: posts_join_profiles_fst distinct_map_filter' del: map_map)
  then show ?thesis by (rule distinct_map_filter')
qed

lemma po_created_at_post_details [simp]:
  "po_created_at (post_details s v p pr) = po_created_at p"
  "po_id (post_details s v p pr) = po_id p"
  "po_author_id (post_details s v p pr) = po_author_id p"
  by (simp_all add: post_details_def)

lemma details_sorted:
  assumes "distinct (map (\<lambda>(p, pr). po_created_at p) rows)"
  shows "sorted_wrt (\<lambda>a b. po_created_at b < po_created_at a)
           (map (\<lambda>(p, pr). post_details s v p pr) (order_by_desc (\<lambda>(p, pr). po_created_at p) rows))"
  using order_by_desc_strict[OF assms]
  by (simp add: sorted_wrt_map case_prod_beta)

lemma limit_offset_Inr:
  "limit_offset lim off xs = Inr ys \<Longrightarrow>
   \<exists>l k. must_be_int lim = Inr l \<and> must_be_int off = Inr k \<and> ys = sql_limit l k xs"
  by (auto simp: limit_offset_def split: sum.splits)

lemma limit_offset_small [simp]:
  "limit_offset (Integer (- 1)) (Integer 0) xs = Inr xs"
  "limit_offset (Integer 3) (Integer 0) xs = Inr (sql_limit 3 0 xs)"
  "limit_offset (Integer 1) (Integer 1) xs = Inr (sql_limit 1 1 xs)"
  "limit_offset (Integer 4) (Integer 0) xs = Inr (sql_limit 4 0 xs)"
  "limit_offset (Integer 20) (Integer 0) xs = Inr (sql_limit 20 0 xs)"
  "limit_offset (Integer 50) (Integer 0) xs = Inr (sql_limit 50 0 xs)"
  by (simp_all add: limit_offset_def)

lemma getFeed_full:
  "getFeed s v (Some (Integer (- 1))) (Some (Integer 0))
     = Inr (map (\<lambda>(p, pr). post_details s v p pr)
              (order_by_desc (\<lambda>(p, pr). po_created_at p) (posts_join_profiles s)))"
  by (simp add: getFeed_def)

lemma getPostsByUser_full:
  "getPostsByUser s u v (Some (Integer (- 1))) (Some (Integer 0))
     = Inr (map (\<lambda>(p, pr). post_details s v p pr)
              (order_by_desc (\<lambda>(p, pr). po_created_at p)
                 (filter (\<lambda>(p, pr). po_author_id p = u) (posts_join_profiles s))))"
  by (simp add: getPostsByUser_def)

lemma feed_posts_in_order:
  assumes "distinct (map pr_id (profiles s))"
      and "\<forall>p \<in> set (posts s). po_author_id p \<in> pr_id ` set (profiles s)"
      and "set (posts s) = {p1, p2, p3}"
      and "po_created_at p1 < po_created_at p2" and "po_created_at p2 < po_created_at p3"
      and "distinct (map po_created_at (posts s))"
  shows "map fst (order_by_desc (\<lambda>(p, pr). po_created_at p) (posts_join_profiles s)) = [p3, p2, p1]"
proof -
  let ?L = "order_by_desc (\<lambda>(p, pr). po_created_at p) (posts_join_profiles s)"
  let ?M = "map fst ?L"
  have fst_join: "map fst (posts_join_profiles s) = posts s"
    using assms(2) by (simp add: posts_join_profiles_fst[OF assms(1)] filter_id_conv)
  have "set ?M = fst ` set (posts_join_profiles s)" by simp
  also have "\<dots> = set (map fst (posts_join_profiles s))" by simp
  finally have setM: "set ?M = {p1, p2, p3}" using fst_join assms(3) by simp
  have "sorted_wrt (\<lambda>a b. (case b of (p, pr) \<Rightarrow> po_created_at p) < (case a of (p, pr) \<Rightarrow> po_created_at p)) ?L"
    using join_keys_distinct[OF assms(1) assms(6), of "\<lambda>x. True"]
    by (intro order_by_desc_strict) simp
  then have "sorted_wrt (\<lambda>a b. po_created_at b < po_created_at a) ?M"
    by (simp add: sorted_wrt_map case_prod_beta)
  then have "sorted_wrt (<) (map po_created_at (rev ?M))"
    by (simp add: sorted_wrt_map sorted_wrt_rev del: map_map)
  then have s1: "sorted (map po_created_at (rev ?M))" and d1: "distinct (map po_created_at (rev ?M))"
    by (simp_all only: strict_sorted_iff)
  have inj: "inj_on po_created_at (set (rev ?M) \<union> set [p1, p2, p3])"
    using assms(4,5) setM by (auto simp: inj_on_def simp del: set_map)
  have "rev ?M = [p1, p2, p3]"
    by (rule map_sorted_distinct_set_unique[OF inj s1 d1])
       (use assms(4,5) setM in \<open>auto simp del: set_map\<close>)
  then show ?thesis by (simp add: rev_swap del: map_map)
qed


section \<open>Likes and the viewer's projection of a post\<close>

lemma getPostById_SomeD:
  assumes "getPostById s i viewer = Some r"
  shows "\<exists>q pr. r = post_details s viewer q pr \<and> po_id q = i \<and> q \<in> set (posts s)
            \<and> pr \<in> set (profiles s) \<and> po_author_id q = pr_id pr"
proof -
  from assms obtain q pr rest where
    f: "filter (\<lambda>(p, pr). po_id p = i) (posts_join_profiles s) = (q, pr) # rest"
    and r: "r = post_details s viewer q pr"
    by (auto simp: getPostById_def split: list.splits)
  from f have "(q, pr) \<in> set (filter (\<lambda>(p, pr). po_id p = i) (posts_join_profiles s))" by simp
  then have "po_id q = i" "(q, pr) \<in> set (posts_join_profiles s)" by auto
  then show ?thesis using r by (auto simp: posts_join_profiles_def)
qed

lemma getPostById_SomeI:
  assumes "q \<in> set (posts s)" and "po_author_id q \<in> pr_id ` set (profiles s)"
  shows "\<exists>q' pr'. getPostById s (po_id q) viewer = Some (post_details s viewer q' pr')
            \<and> po_id q' = po_id q"
proof -
  from assms(2) obtain pr where "pr \<in> set (profiles s)" "po_author_id q = pr_id pr" by auto
  with assms(1) have "(q, pr) \<in> set (posts_join_profiles s)"
    by (auto simp: posts_join_profiles_def)
  then have "(q, pr) \<in> set (filter (\<lambda>(p, pr). po_id p = po_id q) (posts_join_profiles s))" by simp
  then obtain q' pr' rest where
    f: "filter (\<lambda>(p, pr). po_id p = po_id q) (posts_join_profiles s) = (q', pr') # rest"
    by (cases "filter (\<lambda>(p, pr). po_id p = po_id q) (posts_join_profiles s)") auto
  then have "(q', pr') \<in> set (filter (\<lambda>(p, pr). po_id p = po_id q) (posts_join_profiles s))" by simp
  then have "po_id q' = po_id q" by auto
  with f show ?thesis by (auto simp: getPostById_def)
qed

lemma distinct_pairs_filter_fst:
  "distinct (map (\<lambda>x. (f x, g x)) xs) \<Longrightarrow> distinct (map g (filter (\<lambda>x. f x = k) xs))"
  by (induction xs) (auto simp: image_iff)

lemma like_count_card:
  assumes "distinct (map (\<lambda>l. (lk_post_id l, lk_user_id l)) (likes s))"
  shows "length (filter (\<lambda>l. lk_post_id l = p) (likes s))
           = card {w. (p, w) \<in> (\<lambda>l. (lk_post_id l, lk_user_id l)) ` set (likes s)}"
proof -
  let ?ls = "filter (\<lambda>l. lk_post_id l = p) (likes s)"
  have "{w. (p, w) \<in> (\<lambda>l. (lk_post_id l, lk_user_id l)) ` set (likes s)} = set (map lk_user_id ?ls)"
    by (auto simp: image_iff)
  moreover have "distinct (map lk_user_id ?ls)"
    using assms by (rule distinct_pairs_filter_fst)
  ultimately show ?thesis by (simp add: distinct_card del: set_map)
qed

lemma example_rows:
  "getPostById social_db post1_id viewer
     = Some (post_details social_db viewer
               \<lparr>po_id = post1_id, po_author_id = bob_id, po_image_url = ''/uploads/1.webp'',
                po_caption = ''hi'', po_created_at = ''2026-01-01 10:00:00''\<rparr>
               \<lparr>pr_id = bob_id, pr_atxp_account = ''atxp:bob'', pr_username = ''bob'',
                pr_display_name = ''Bob'', pr_bio = [], pr_avatar_url = None,
                pr_created_at = ''2026-01-01 09:00:05''\<rparr>)"
  by (simp add: getPostById_def posts_join_profiles_def social_db_def base_db_def)

text \<open>
  Claim C1. For a stored post \<open>p\<close> and a stored user \<open>u\<close> who has no like on \<open>p\<close>,
  and a fresh identifier for the new row: the first \<^verbatim>\<open>likePost(p, u)\<close> returns \<^verbatim>\<open>true\<close>
  and appends the like, the second returns \<^verbatim>\<open>false\<close>, and the store after the second call
  is the store after the first. In every reachable state the \<open>like_count\<close> that
  \<^verbatim>\<open>getPostById\<close> reports for \<open>p\<close> is the number of distinct users with a stored like
  on \<open>p\<close>.
\<close>

theorem likePost_twice_and_like_count:
  assumes "p \<in> po_id ` set (posts s)" and "u \<in> pr_id ` set (profiles s)"
      and "(p, u) \<notin> (\<lambda>l. (lk_post_id l, lk_user_id l)) ` set (likes s)"
      and "uuid1 \<notin> lk_id ` set (likes s)"
  shows "likePost fk s uuid1 now1 p u
           = Inr (True, s\<lparr>likes := likes s @ [\<lparr>lk_id = uuid1, lk_post_id = p, lk_user_id = u,
                                                lk_created_at = now1\<rparr>]\<rparr>)
       \<and> likePost fk (s\<lparr>likes := likes s @ [\<lparr>lk_id = uuid1, lk_post_id = p, lk_user_id = u,
                                               lk_created_at = now1\<rparr>]\<rparr>) uuid2 now2 p u
           = Inr (False, s\<lparr>likes := likes s @ [\<lparr>lk_id = uuid1, lk_post_id = p, lk_user_id = u,
                                                 lk_created_at = now1\<rparr>]\<rparr>)
       \<and> (\<forall>s' viewer r. reachable fk s' \<longrightarrow> getPostById s' p viewer = Some r \<longrightarrow>
             like_count r = card {w. (p, w) \<in> (\<lambda>l. (lk_post_id l, lk_user_id l)) ` set (likes s')})"
proof -
  have 1: "likePost fk s uuid1 now1 p u
           = Inr (True, s\<lparr>likes := likes s @ [\<lparr>lk_id = uuid1, lk_post_id = p, lk_user_id = u,
                                                lk_created_at = now1\<rparr>]\<rparr>)"
    using assms by (simp add: likePost_def insert_like_def)
  have 2: "likePost fk (s\<lparr>likes := likes s @ [\<lparr>lk_id = uuid1, lk_post_id = p, lk_user_id = u,
                                               lk_created_at = now1\<rparr>]\<rparr>) uuid2 now2 p u
           = Inr (False, s\<lparr>likes := likes s @ [\<lparr>lk_id = uuid1, lk_post_id = p, lk_user_id = u,
                                                 lk_created_at = now1\<rparr>]\<rparr>)"
    by (simp add: likePost_def insert_like_def)
  have 3: "like_count r = card {w. (p, w) \<in> (\<lambda>l. (lk_post_id l, lk_user_id l)) ` set (likes s')}"
    if "reachable fk s'" "getPostById s' p viewer = Some r" for s' viewer r
  proof -
    from that(1) have d: "distinct (map (\<lambda>l. (lk_post_id l, lk_user_id l)) (likes s'))"
      using reachable_keys_unique by (auto simp: keys_unique_def)
    from getPostById_SomeD[OF that(2)] obtain q pr where
      "r = post_details s' viewer q pr" "po_id q = p" by blast
    then have "like_count r = length (filter (\<lambda>l. lk_post_id l = p) (likes s'))"
      by (simp add: post_details_def)
    with like_count_card[OF d] show ?thesis by simp
  qed
  from 1 2 3 show ?thesis by blast
qed

theorem likePost_twice_and_like_count_witness:
  "likePost True base_db like1_id ''2026-01-02 09:00:00'' post1_id alice_id
     = Inr (True, base_db\<lparr>likes := [\<lparr>lk_id = like1_id, lk_post_id = post1_id,
                                      lk_user_id = alice_id, lk_created_at = ''2026-01-02 09:00:00''\<rparr>]\<rparr>)
   \<and> likePost True (base_db\<lparr>likes := [\<lparr>lk_id = like1_id, lk_post_id = post1_id,
                                      lk_user_id = alice_id, lk_created_at = ''2026-01-02 09:00:00''\<rparr>]\<rparr>)
        follow1_id ''2026-01-02 09:00:07'' post1_id alice_id
     = Inr (False, base_db\<lparr>likes := [\<lparr>lk_id = like1_id, lk_post_id = post1_id,
                                      lk_user_id = alice_id, lk_created_at = ''2026-01-02 09:00:00''\<rparr>]\<rparr>)
   \<and> reachable True social_db
   \<and> map_option like_count (getPostById social_db post1_id (Some alice_id)) = Some 1
   \<and> card {w. (post1_id, w) \<in> (\<lambda>l. (lk_post_id l, lk_user_id l)) ` set (likes social_db)} = 1"
proof -
  have h: "post1_id \<in> po_id ` set (posts base_db)" "alice_id \<in> pr_id ` set (profiles base_db)"
    "(post1_id, alice_id) \<notin> (\<lambda>l. (lk_post_id l, lk_user_id l)) ` set (likes base_db)"
    "like1_id \<notin> lk_id ` set (likes base_db)"
    by (simp_all add: base_db_def)
  have n: "like_count (post_details social_db (Some alice_id)
               \<lparr>po_id = post1_id, po_author_id = bob_id, po_image_url = ''/uploads/1.webp'',
                po_caption = ''hi'', po_created_at = ''2026-01-01 10:00:00''\<rparr>
               \<lparr>pr_id = bob_id, pr_atxp_account = ''atxp:bob'', pr_username = ''bob'',
                pr_display_name = ''Bob'', pr_bio = [], pr_avatar_url = None,
                pr_created_at = ''2026-01-01 09:00:05''\<rparr>) = 1"
    by (simp add: post_details_def social_db_def base_db_def)
  note inst = likePost_twice_and_like_count[OF h, of True "''2026-01-02 09:00:00''" follow1_id
      "''2026-01-02 09:00:07''"]
  have l0: "likes base_db = []" by (simp add: base_db_def)
  from inst have a: "likePost True base_db like1_id ''2026-01-02 09:00:00'' post1_id alice_id
     = Inr (True, base_db\<lparr>likes := [\<lparr>lk_id = like1_id, lk_post_id = post1_id,
                                      lk_user_id = alice_id, lk_created_at = ''2026-01-02 09:00:00''\<rparr>]\<rparr>)"
    unfolding l0 append_Nil by (rule conjunct1)
  from inst have b: "likePost True (base_db\<lparr>likes := [\<lparr>lk_id = like1_id, lk_post_id = post1_id,
                                      lk_user_id = alice_id, lk_created_at = ''2026-01-02 09:00:00''\<rparr>]\<rparr>)
        follow1_id ''2026-01-02 09:00:07'' post1_id alice_id
     = Inr (False, base_db\<lparr>likes := [\<lparr>lk_id = like1_id, lk_post_id = post1_id,
                                      lk_user_id = alice_id, lk_created_at = ''2026-01-02 09:00:00''\<rparr>]\<rparr>)"
    unfolding l0 append_Nil by (rule conjunct1[OF conjunct2])
  from inst have c: "\<forall>s' viewer r. reachable True s' \<longrightarrow> getPostById s' post1_id viewer = Some r \<longrightarrow>
             like_count r = card {w. (post1_id, w) \<in> (\<lambda>l. (lk_post_id l, lk_user_id l)) ` set (likes s')}"
    by (rule conjunct2[OF conjunct2])
  from c[rule_format, OF social_db_reachable[of True] example_rows[of "Some alice_id"]] n
  have k: "card {w. (post1_id, w) \<in> (\<lambda>l. (lk_post_id l, lk_user_id l)) ` set (likes social_db)} = 1"
    by (simp only:)
  have g: "map_option like_count (getPostById social_db post1_id (Some alice_id)) = Some 1"
    unfolding example_rows using n by (simp only: option.map)
  from a b social_db_reachable[of True] g k
  show ?thesis by (intro conjI)
qed

text \<open>
  Claim C5. In every reachable state (foreign keys enforced) and for every stored post id:
  \<^verbatim>\<open>getPostById\<close> with a viewer \<open>V\<close> who has a like on the post returns a row whose
  \<open>is_liked\<close> is present and true; with a viewer \<open>W\<close>, a stored profile without a like on
  the post, it returns a row whose \<open>is_liked\<close> is present and false; with no viewer it
  returns a row in which \<open>is_liked\<close> is absent.
\<close>

theorem getPostById_is_liked:
  assumes "reachable True s" and "p \<in> po_id ` set (posts s)"
  shows "((p, V) \<in> (\<lambda>l. (lk_post_id l, lk_user_id l)) ` set (likes s)
            \<longrightarrow> map_option is_liked (getPostById s p (Some V)) = Some (Some True))
       \<and> (W \<in> pr_id ` set (profiles s)
            \<and> (p, W) \<notin> (\<lambda>l. (lk_post_id l, lk_user_id l)) ` set (likes s)
            \<longrightarrow> map_option is_liked (getPostById s p (Some W)) = Some (Some False))
       \<and> map_option is_liked (getPostById s p None) = Some None"
proof -
  from assms(1) have refs: "refs_exist s" and shaped: "ids_shaped s"
    by (simp_all add: reachable_refs_exist reachable_ids_shaped)
  from assms(2) obtain q where q: "q \<in> set (posts s)" "po_id q = p" by auto
  with refs have a: "po_author_id q \<in> pr_id ` set (profiles s)" by (simp add: refs_exist_def)
  have row: "\<exists>q' pr'. getPostById s p viewer = Some (post_details s viewer q' pr') \<and> po_id q' = p"
    for viewer
    using getPostById_SomeI[OF q(1) a, of viewer] q(2) by simp
  have nonempty: "x \<noteq> []" if "x \<in> pr_id ` set (profiles s)" for x
    using that shaped by (auto simp: ids_shaped_def uuid_shaped_def)
  have v: "map_option is_liked (getPostById s p (Some V)) = Some (Some True)"
    if "(p, V) \<in> (\<lambda>l. (lk_post_id l, lk_user_id l)) ` set (likes s)"
  proof -
    from that obtain l where l: "l \<in> set (likes s)" "lk_post_id l = p" "lk_user_id l = V" by auto
    with refs have "V \<in> pr_id ` set (profiles s)" by (auto simp: refs_exist_def)
    then have "V \<noteq> []" by (rule nonempty)
    moreover from l have "filter (\<lambda>l. lk_post_id l = p \<and> lk_user_id l = V) (likes s) \<noteq> []"
      by (auto simp: filter_empty_conv)
    ultimately show ?thesis using row[of "Some V"] by (auto simp: post_details_def)
  qed
  have w: "map_option is_liked (getPostById s p (Some W)) = Some (Some False)"
    if "W \<in> pr_id ` set (profiles s)"
      and "(p, W) \<notin> (\<lambda>l. (lk_post_id l, lk_user_id l)) ` set (likes s)"
  proof -
    from that(1) have "W \<noteq> []" by (rule nonempty)
    moreover from that(2) have "filter (\<lambda>l. lk_post_id l = p \<and> lk_user_id l = W) (likes s) = []"
      by (auto simp: filter_empty_conv image_iff)
    ultimately show ?thesis using row[of "Some W"] by (auto simp: post_details_def)
  qed
  have n: "map_option is_liked (getPostById s p None) = Some None"
    using row[of None] by (auto simp: post_details_def)
  from v w n show ?thesis by blast
qed

theorem getPostById_is_liked_witness:
  "reachable True social_db \<and> post1_id \<in> po_id ` set (posts social_db)
   \<and> (post1_id, alice_id) \<in> (\<lambda>l. (lk_post_id l, lk_user_id l)) ` set (likes social_db)
   \<and> bob_id \<in> pr_id ` set (profiles social_db)
   \<and> (post1_id, bob_id) \<notin> (\<lambda>l. (lk_post_id l, lk_user_id l)) ` set (likes social_db)
   \<and> map_option is_liked (getPostById social_db post1_id (Some alice_id)) = Some (Some True)
   \<and> map_option is_liked (getPostById social_db post1_id (Some bob_id)) = Some (Some False)
   \<and> map_option is_liked (getPostById social_db post1_id None) = Some None"
proof -
  have h: "post1_id \<in> po_id ` set (posts social_db)"
    "(post1_id, alice_id) \<in> (\<lambda>l. (lk_post_id l, lk_user_id l)) ` set (likes social_db)"
    "bob_id \<in> pr_id ` set (profiles social_db)"
    "(post1_id, bob_id) \<notin> (\<lambda>l. (lk_post_id l, lk_user_id l)) ` set (likes social_db)"
    by (simp_all add: social_db_def base_db_def)
  from getPostById_is_liked[OF social_db_reachable[of True] h(1), of alice_id bob_id] h
    social_db_reachable[of True]
  show ?thesis by simp
qed


section \<open>The feed\<close>

lemma getFeed_page:
  assumes "getFeed s viewer lim ofs = Inr rows"
  shows "\<exists>l k. rows = sql_limit l k
           (map (\<lambda>(p, pr). post_details s viewer p pr)
              (order_by_desc (\<lambda>(p, pr). po_created_at p) (posts_join_profiles s)))"
  using limit_offset_Inr[OF assms[unfolded getFeed_def]] by blast

lemma getPostsByUser_page:
  assumes "getPostsByUser s userId viewer lim ofs = Inr rows"
  shows "\<exists>l k. rows = sql_limit l k
           (map (\<lambda>(p, pr). post_details s viewer p pr)
              (order_by_desc (\<lambda>(p, pr). po_created_at p)
                 (filter (\<lambda>(p, pr). po_author_id p = userId) (posts_join_profiles s))))"
  using limit_offset_Inr[OF assms[unfolded getPostsByUser_def]] by blast

text \<open>
  What the two queries guarantee is an order of the stored text: in a reachable state
  whose posts have pairwise distinct \<open>created_at\<close>, the rows of \<^verbatim>\<open>getFeed\<close> and of
  \<^verbatim>\<open>getPostsByUser\<close> are in strictly descending order of that column, and the rows of
  \<^verbatim>\<open>getPostsByUser\<close> are posts of the given author.
\<close>

lemma feed_sorted_by_created_at:
  assumes "reachable fk s" and "distinct (map po_created_at (posts s))"
  shows "(getFeed s viewer limit offset = Inr rows \<longrightarrow>
            sorted_wrt (\<lambda>a b. po_created_at b < po_created_at a) rows)
       \<and> (getPostsByUser s userId viewer limit offset = Inr rows' \<longrightarrow>
            sorted_wrt (\<lambda>a b. po_created_at b < po_created_at a) rows'
            \<and> (\<forall>r \<in> set rows'. po_author_id r = userId))"
proof -
  from assms(1) have dp: "distinct (map pr_id (profiles s))"
    using reachable_keys_unique by (auto simp: keys_unique_def)
  note keys = join_keys_distinct[OF dp assms(2)]
  let ?all = "map (\<lambda>(p, pr). post_details s viewer p pr)
                (order_by_desc (\<lambda>(p, pr). po_created_at p) (posts_join_profiles s))"
  let ?mine = "map (\<lambda>(p, pr). post_details s viewer p pr)
                 (order_by_desc (\<lambda>(p, pr). po_created_at p)
                    (filter (\<lambda>(p, pr). po_author_id p = userId) (posts_join_profiles s)))"
  have full: "sorted_wrt (\<lambda>a b. po_created_at b < po_created_at a) ?all"
    using keys[of "\<lambda>x. True"] by (intro details_sorted) simp
  have fullu: "sorted_wrt (\<lambda>a b. po_created_at b < po_created_at a) ?mine"
    by (intro details_sorted keys)
  have au: "\<forall>r \<in> set ?mine. po_author_id r = userId" by auto
  have c1: "sorted_wrt (\<lambda>a b. po_created_at b < po_created_at a) rows"
    if "getFeed s viewer limit offset = Inr rows"
  proof -
    from getFeed_page[OF that] obtain l k where "rows = sql_limit l k ?all" by blast
    then show ?thesis using sorted_wrt_sql_limit[OF full] by simp
  qed
  have c2: "sorted_wrt (\<lambda>a b. po_created_at b < po_created_at a) rows'
            \<and> (\<forall>r \<in> set rows'. po_author_id r = userId)"
    if "getPostsByUser s userId viewer limit offset = Inr rows'"
  proof -
    from getPostsByUser_page[OF that] obtain l k where e: "rows' = sql_limit l k ?mine" by blast
    have "set rows' \<subseteq> set ?mine" unfolding e by (rule set_sql_limit)
    with au have "\<forall>r \<in> set rows'. po_author_id r = userId" by blast
    then show ?thesis using sorted_wrt_sql_limit[OF fullu] e by simp
  qed
  from c1 c2 show ?thesis by blast
qed

lemma feed_three_posts:
  assumes "reachable True s" and "set (posts s) = {p1, p2, p3}"
      and "po_created_at p1 < po_created_at p2" and "po_created_at p2 < po_created_at p3"
  shows "map_sum id (map po_id) (getFeed s viewer (Some (Integer 3)) (Some (Integer 0)))
           = Inr [po_id p3, po_id p2, po_id p1]
       \<and> map_sum id (map po_id) (getFeed s viewer (Some (Integer 1)) (Some (Integer 1)))
           = Inr [po_id p2]"
proof -
  from assms(1) have ku: "keys_unique s" by (rule reachable_keys_unique)
  then have dp: "distinct (map pr_id (profiles s))" and di: "distinct (map po_id (posts s))"
    by (simp_all add: keys_unique_def)
  from di have "distinct (posts s)" by (simp add: distinct_map)
  moreover have "inj_on po_created_at (set (posts s))"
    using assms(2,3,4) by (auto simp: inj_on_def)
  ultimately have dt: "distinct (map po_created_at (posts s))" by (simp add: distinct_map)
  from assms(1) have "refs_exist s" by (rule reachable_refs_exist)
  then have all: "\<forall>p \<in> set (posts s). po_author_id p \<in> pr_id ` set (profiles s)"
    by (simp add: refs_exist_def)
  let ?L = "order_by_desc (\<lambda>(p, pr). po_created_at p) (posts_join_profiles s)"
  from feed_posts_in_order[OF dp all assms(2,3,4) dt]
  have m: "map fst ?L = [p3, p2, p1]" .
  have ids: "map po_id (map (\<lambda>(p, pr). post_details s viewer p pr) rows) = map po_id (map fst rows)"
    for rows by (simp add: case_prod_beta)
  have a: "map po_id (sql_limit l k (map (\<lambda>(p, pr). post_details s viewer p pr) ?L))
             = sql_limit l k [po_id p3, po_id p2, po_id p1]" for l k
    unfolding map_sql_limit ids m by simp
  have "map_sum id (map po_id) (getFeed s viewer (Some (Integer 3)) (Some (Integer 0)))
          = Inr (sql_limit 3 0 [po_id p3, po_id p2, po_id p1])"
    unfolding getFeed_def by (simp only: option.case limit_offset_small map_sum.simps a)
  moreover have "map_sum id (map po_id) (getFeed s viewer (Some (Integer 1)) (Some (Integer 1)))
          = Inr (sql_limit 1 1 [po_id p3, po_id p2, po_id p1])"
    unfolding getFeed_def by (simp only: option.case limit_offset_small map_sum.simps a)
  ultimately show ?thesis by (simp add: sql_limit_def)
qed

text \<open>
  For posts stamped by \<^verbatim>\<open>CURRENT_TIMESTAMP\<close> at clock readings \<open>c1\<close>, \<open>c2\<close>, \<open>c3\<close> in
  different seconds, that order is the order of creation.
\<close>

lemma feed_three_posts_by_clock:
  assumes "reachable True s" and "set (posts s) = {p1, p2, p3}"
      and "po_created_at p1 = current_timestamp c1" and "po_created_at p2 = current_timestamp c2"
      and "po_created_at p3 = current_timestamp c3"
      and "clock_ok c1" and "clock_ok c2" and "clock_ok c3"
      and "earlier c1 c2" and "earlier c2 c3"
  shows "map_sum id (map po_id) (getFeed s viewer (Some (Integer 3)) (Some (Integer 0)))
           = Inr [po_id p3, po_id p2, po_id p1]
       \<and> map_sum id (map po_id) (getFeed s viewer (Some (Integer 1)) (Some (Integer 1)))
           = Inr [po_id p2]"
proof -
  have "po_created_at p1 < po_created_at p2" "po_created_at p2 < po_created_at p3"
    using assms(3-10) by (simp_all add: current_timestamp_mono)
  from feed_three_posts[OF assms(1,2) this] show ?thesis .
qed

lemma digit_values [simp]:
  "digit 0 = CHR ''0''" "digit 1 = CHR ''1''" "digit 2 = CHR ''2''" "digit 3 = CHR ''3''"
  "digit 4 = CHR ''4''" "digit 5 = CHR ''5''" "digit 6 = CHR ''6''" "digit 7 = CHR ''7''"
  "digit 8 = CHR ''8''" "digit 9 = CHR ''9''"
  by code_simp+

text \<open>
  The state after a first start of the server and one post (\<open>seeded_db\<close>), and the
  state with two posts of one second (\<open>burst_db\<close>), row by row.
\<close>

lemma seed_post_sel [simp]:
  "po_id (seed_post a u h i) = u i"
  "po_author_id (seed_post a u h i) = a"
  by (simp_all add: seed_post_def Let_def)

lemma seed_clock_texts:
  "toISOString (hours_before_boot 2) = ''2026-01-01T08:37:00.123Z''"
  "toISOString (hours_before_boot 8) = ''2026-01-01T02:37:00.123Z''"
  "toISOString (hours_before_boot 26) = ''2025-12-31T08:37:00.123Z''"
  "current_timestamp boot_clock = ''2026-01-01 10:37:00''"
  "current_timestamp post_clock = ''2026-01-01 10:40:00''"
  by code_simp+

lemma seed_post_created_at:
  "po_created_at (seed_post a u hours_before_boot 0) = ''2026-01-01T08:37:00.123Z''"
  "po_created_at (seed_post a u hours_before_boot 1) = ''2026-01-01T02:37:00.123Z''"
  "po_created_at (seed_post a u hours_before_boot (Suc 0)) = ''2026-01-01T02:37:00.123Z''"
  "po_created_at (seed_post a u hours_before_boot 2) = ''2025-12-31T08:37:00.123Z''"
  by (simp_all add: seed_post_def Let_def seed_clock_texts)

lemma seed_uuid_eq [simp]: "(seed_uuid i = seed_uuid j) = (i mod 10 = j mod 10)"
  by (simp add: seed_uuid_def digit_eq)

lemma seed_ids [simp]:
  "post1_id \<noteq> seed_uuid i" "seed_uuid i \<noteq> post1_id"
  "alice_id \<noteq> demo_id" "demo_id \<noteq> alice_id"
  "uuid_shaped (seed_uuid i)" "uuid_shaped demo_id"
  by (simp_all add: seed_uuid_def post1_id_def alice_id_def demo_id_def uuid_shaped_def)

lemma seeded_db_rows:
  "seeded_db =
     \<lparr>auth_cookies = [],
      profiles = [demo_profile demo_id (current_timestamp boot_clock),
                  \<lparr>pr_id = alice_id, pr_atxp_account = ''atxp:alice'', pr_username = ''alice'',
                    pr_display_name = ''Alice'', pr_bio = [], pr_avatar_url = None,
                    pr_created_at = current_timestamp post_clock\<rparr>],
      posts = [seed_post demo_id seed_uuid hours_before_boot 0,
               seed_post demo_id seed_uuid hours_before_boot 1,
               seed_post demo_id seed_uuid hours_before_boot 2,
               \<lparr>po_id = post1_id, po_author_id = alice_id, po_image_url = ''/uploads/1.webp'',
                 po_caption = ''hi'', po_created_at = current_timestamp post_clock\<rparr>],
      likes = [], comments = [], follows = []\<rparr>"
proof -
  have u: "[0..<length seedPosts] = [0, 1, 2]"
    by (simp add: seedPosts_def)
  have d: "pr_id (demo_profile a n) = a" "pr_username (demo_profile a n) = ''instaclaw_bot''"
    "pr_atxp_account (demo_profile a n) = ''atxp:demo-instaclaw-agent''" for a n
    by (simp_all add: demo_profile_def)
  show ?thesis
    by (simp add: seeded_db_def seeded_cmds_def seedDemoData_def u d empty_db_def
          createProfile_def createPost_def insert_profile_def insert_post_def state_after_def)
qed

lemma seeded_db_reachable: "reachable True seeded_db"
  unfolding seeded_db_def
  by (rule reachable_foldl) (simp_all add: seeded_cmds_def list_all_iff reachable_init)

lemma seeded_feed_rows:
  "map (\<lambda>(p, pr). po_id p)
     (order_by_desc (\<lambda>(p, pr). po_created_at p) (posts_join_profiles seeded_db))
     = [seed_uuid 0, seed_uuid 1, post1_id, seed_uuid 2]"
  by (simp add: seeded_db_rows posts_join_profiles_def order_by_desc_def demo_profile_def
        seed_post_created_at seed_clock_texts)

lemma burst_clock_texts:
  "current_timestamp (burst_clock 0 100) = ''2026-01-01 10:00:00''"
  "current_timestamp (burst_clock 0 900) = ''2026-01-01 10:00:00''"
  "current_timestamp (burst_clock 1 300) = ''2026-01-01 10:00:01''"
  "current_timestamp (burst_clock (Suc 0) 300) = ''2026-01-01 10:00:01''"
  by code_simp+

lemma burst_db_rows:
  "burst_db =
     \<lparr>auth_cookies = [],
      profiles = [\<lparr>pr_id = alice_id, pr_atxp_account = ''atxp:alice'', pr_username = ''alice'',
                    pr_display_name = ''Alice'', pr_bio = [], pr_avatar_url = None,
                    pr_created_at = ''2026-01-01 09:00:00''\<rparr>],
      posts = [\<lparr>po_id = post1_id, po_author_id = alice_id, po_image_url = ''/uploads/1.webp'',
                 po_caption = ''one'', po_created_at = ''2026-01-01 10:00:00''\<rparr>,
               \<lparr>po_id = post2_id, po_author_id = alice_id, po_image_url = ''/uploads/2.webp'',
                 po_caption = ''two'', po_created_at = ''2026-01-01 10:00:00''\<rparr>,
               \<lparr>po_id = post3_id, po_author_id = alice_id, po_image_url = ''/uploads/3.webp'',
                 po_caption = ''three'', po_created_at = ''2026-01-01 10:00:01''\<rparr>],
      likes = [], comments = [], follows = []\<rparr>"
  by (simp add: burst_db_def burst_cmds_def burst_clock_texts empty_db_def
        createProfile_def createPost_def insert_profile_def insert_post_def state_after_def)

lemma burst_db_reachable: "reachable True burst_db"
  unfolding burst_db_def
  by (rule reachable_foldl) (simp_all add: burst_cmds_def reachable_init)

lemma burst_feed_rows:
  "map (\<lambda>(p, pr). po_id p)
     (order_by_desc (\<lambda>(p, pr). po_created_at p) (posts_join_profiles burst_db))
     = [post3_id, post1_id, post2_id]"
  by (simp add: burst_db_rows posts_join_profiles_def order_by_desc_def)

lemma map_sum_limit_offset:
  "map_sum id (map f) (limit_offset l k xs) = limit_offset l k (map f xs)"
  by (simp add: limit_offset_def map_sql_limit split: sum.splits)

lemma getFeed_ids:
  "map_sum id (map po_id) (getFeed s v lim off)
     = limit_offset (case lim of None \<Rightarrow> Integer 20 | Some l \<Rightarrow> l)
         (case off of None \<Rightarrow> Integer 0 | Some k \<Rightarrow> k)
         (map (\<lambda>(p, pr). po_id p)
            (order_by_desc (\<lambda>(p, pr). po_created_at p) (posts_join_profiles s)))"
proof -
  have "map po_id (map (\<lambda>(p, pr). post_details s v p pr) rows) = map (\<lambda>(p, pr). po_id p) rows"
    for rows by (induction rows) auto
  then show ?thesis unfolding getFeed_def map_sum_limit_offset by (simp only:)
qed

text \<open>
  Claim C4 says that \<^verbatim>\<open>getFeed\<close> returns the posts newest first: for posts created at
  times \<open>t1 < t2 < t3\<close>, \<^verbatim>\<open>getFeed(_, 3, 0)\<close> is \<open>[t3, t2, t1]\<close> and
  \<^verbatim>\<open>getFeed(_, 1, 1)\<close> is \<open>[t2]\<close>. The query orders by the text of \<^verbatim>\<open>created_at\<close>, and
  that column holds two formats: \<^verbatim>\<open>createPost\<close> leaves it to \<^verbatim>\<open>CURRENT_TIMESTAMP\<close>, and
  \<^verbatim>\<open>seedDemoData\<close> writes \<^verbatim>\<open>toISOString()\<close> of a \<^verbatim>\<open>Date\<close>. The two differ at the eleventh
  character, where \<^verbatim>\<open>T\<close> sorts after the space, so a seeded row sorts after every row
  of the same day that \<^verbatim>\<open>createPost\<close> wrote.

  In the reachable state \<open>seeded_db\<close> the post of alice is the one created last, three
  minutes after the start of the server and more than two hours after the time the
  newest demo post is stamped with. \<^verbatim>\<open>getFeed(_, 3, 0)\<close> lists it third, below the demo
  posts stamped two and eight hours before the start; \<^verbatim>\<open>getFeed(_, 1, 1)\<close> returns the
  demo post of eight hours before, which is the third newest; and the first row of the
  feed is not the post of alice.
\<close>

theorem getFeed_after_seedDemoData:
  "reachable True seeded_db
   \<and> map (\<lambda>p. (po_id p, po_created_at p)) (posts seeded_db)
       = [(seed_uuid 0, toISOString (hours_before_boot 2)),
          (seed_uuid 1, toISOString (hours_before_boot 8)),
          (seed_uuid 2, toISOString (hours_before_boot 26)),
          (post1_id, current_timestamp post_clock)]
   \<and> map po_created_at (posts seeded_db)
       = [''2026-01-01T08:37:00.123Z'', ''2026-01-01T02:37:00.123Z'',
          ''2025-12-31T08:37:00.123Z'', ''2026-01-01 10:40:00'']
   \<and> earlier (hours_before_boot 26) (hours_before_boot 8)
   \<and> earlier (hours_before_boot 8) (hours_before_boot 2)
   \<and> earlier (hours_before_boot 2) boot_clock
   \<and> earlier boot_clock post_clock
   \<and> map_sum id (map po_id) (getFeed seeded_db None (Some (Integer 3)) (Some (Integer 0)))
       = Inr [seed_uuid 0, seed_uuid 1, post1_id]
   \<and> map_sum id (map po_id) (getFeed seeded_db None (Some (Integer 1)) (Some (Integer 1)))
       = Inr [seed_uuid 1]
   \<and> map_sum id (map po_id) (getFeed seeded_db None None None)
       = Inr [seed_uuid 0, seed_uuid 1, post1_id, seed_uuid 2]
   \<and> map_sum id (map po_id) (getFeed seeded_db None (Some (Integer 1)) (Some (Integer 0)))
       \<noteq> Inr [post1_id]"
proof -
  have stored: "map (\<lambda>p. (po_id p, po_created_at p)) (posts seeded_db)
       = [(seed_uuid 0, toISOString (hours_before_boot 2)),
          (seed_uuid 1, toISOString (hours_before_boot 8)),
          (seed_uuid 2, toISOString (hours_before_boot 26)),
          (post1_id, current_timestamp post_clock)]"
    by (simp add: seeded_db_rows seed_post_created_at seed_clock_texts)
  have texts: "map po_created_at (posts seeded_db)
       = [''2026-01-01T08:37:00.123Z'', ''2026-01-01T02:37:00.123Z'',
          ''2025-12-31T08:37:00.123Z'', ''2026-01-01 10:40:00'']"
    by (simp add: seeded_db_rows seed_post_created_at seed_clock_texts)
  have clocks: "earlier (hours_before_boot 26) (hours_before_boot 8)"
    "earlier (hours_before_boot 8) (hours_before_boot 2)"
    "earlier (hours_before_boot 2) boot_clock" "earlier boot_clock post_clock"
    by (simp_all add: earlier_def hours_before_boot_def boot_clock_def post_clock_def)
  have feed: "map_sum id (map po_id) (getFeed seeded_db None (Some (Integer 3)) (Some (Integer 0)))
       = Inr [seed_uuid 0, seed_uuid 1, post1_id]"
    "map_sum id (map po_id) (getFeed seeded_db None (Some (Integer 1)) (Some (Integer 1)))
       = Inr [seed_uuid 1]"
    "map_sum id (map po_id) (getFeed seeded_db None None None)
       = Inr [seed_uuid 0, seed_uuid 1, post1_id, seed_uuid 2]"
    "map_sum id (map po_id) (getFeed seeded_db None (Some (Integer 1)) (Some (Integer 0)))
       \<noteq> Inr [post1_id]"
    by (simp_all add: getFeed_ids seeded_feed_rows limit_offset_def sql_limit_def)
  from seeded_db_reachable stored texts clocks feed show ?thesis by (simp only: simp_thms)
qed

text \<open>
  \<^verbatim>\<open>CURRENT_TIMESTAMP\<close> has a resolution of one second. Two posts created at different
  times within one second carry the same text, and the feed lists them in the order of
  their insertion, the older one first.
\<close>

lemma getFeed_same_second:
  "reachable True burst_db
   \<and> map (\<lambda>p. (po_id p, po_created_at p)) (posts burst_db)
       = [(post1_id, current_timestamp (burst_clock 0 100)),
          (post2_id, current_timestamp (burst_clock 0 900)),
          (post3_id, current_timestamp (burst_clock 1 300))]
   \<and> current_timestamp (burst_clock 0 100) = current_timestamp (burst_clock 0 900)
   \<and> map_sum id (map po_id) (getFeed burst_db None (Some (Integer 3)) (Some (Integer 0)))
       = Inr [post3_id, post1_id, post2_id]
   \<and> map_sum id (map po_id) (getFeed burst_db None (Some (Integer 1)) (Some (Integer 1)))
       = Inr [post1_id]"
proof -
  have stored: "map (\<lambda>p. (po_id p, po_created_at p)) (posts burst_db)
       = [(post1_id, current_timestamp (burst_clock 0 100)),
          (post2_id, current_timestamp (burst_clock 0 900)),
          (post3_id, current_timestamp (burst_clock 1 300))]"
    "current_timestamp (burst_clock 0 100) = current_timestamp (burst_clock 0 900)"
    by (simp_all add: burst_db_rows burst_clock_texts)
  have feed: "map_sum id (map po_id) (getFeed burst_db None (Some (Integer 3)) (Some (Integer 0)))
       = Inr [post3_id, post1_id, post2_id]"
    "map_sum id (map po_id) (getFeed burst_db None (Some (Integer 1)) (Some (Integer 1)))
       = Inr [post1_id]"
    by (simp_all add: getFeed_ids burst_feed_rows limit_offset_def sql_limit_def)
  from burst_db_reachable stored feed show ?thesis by (simp only: simp_thms)
qed


end
